theory Spec2Isabelle
  imports Complex_Main
begin

section \<open>Conventions of the embedding\<close>

text \<open>
  The theory embeds the Python scripts \<^verbatim>\<open>generate_mp4.py\<close>,
  \<^verbatim>\<open>scripts/generate_mp4.py\<close> and \<^verbatim>\<open>generate_video.py\<close>.
  Python exceptions are values of the datatype \<open>error\<close>, and a function that can raise
  returns \<open>error + 'a\<close> with \<open>Inl\<close> for the exception. Python's unbounded integers are
  \<open>int\<close> or, for counts and positions that cannot be negative, \<open>nat\<close>. A byte
  is a natural number below 256. The binary reader is polymorphic in the value that
  numpy decodes from the eight bytes of a \<^verbatim>\<open>float64\<close>, and takes the decoding as an
  argument. Where the scripts compute with floats (maxima, \<^verbatim>\<open>* 1.1\<close>, \<^verbatim>\<open>sqrt\<close>)
  the arithmetic is the exact arithmetic of \<open>real\<close>, with \<open>None\<close> standing for NaN
  in aggregates of an empty column. Text is ASCII.
\<close>

datatype error =
    FileNotFoundError string
  | IndexError nat nat
  | KeyError string
  | ValueError string
  | OverflowError string
  | CalledProcessError int string string

text \<open>
  \<open>IndexError i n\<close> is numpy's ``index i is out of bounds for axis 0 with size n'';
  \<open>CalledProcessError rc out err\<close> carries the return code and the captured output
  streams of the child process.
\<close>

definition bind :: "error + 'a \<Rightarrow> ('a \<Rightarrow> error + 'b) \<Rightarrow> error + 'b" where
  "bind m f = (case m of Inl e \<Rightarrow> Inl e | Inr a \<Rightarrow> f a)"

section \<open>Decimal text of a number\<close>

definition digit_char :: "nat \<Rightarrow> char" where
  "digit_char d = ''0123456789'' ! d"

text \<open>Python's \<^verbatim>\<open>str(n)\<close> for a non-negative integer.\<close>

fun str_nat :: "nat \<Rightarrow> string" where
  "str_nat n =
     (if n < 10 then [digit_char n]
      else str_nat (n div 10) @ [digit_char (n mod 10)])"

declare str_nat.simps [simp del]

section \<open>The particle table\<close>

text \<open>
  One row of the pandas table: the dict that \<^verbatim>\<open>read_binary_simulation\<close> appends for
  every particle of every frame. \<open>'p\<close> is the type of the particle identifier (text
  before the CSV labels are converted, \<open>int\<close> after), \<open>'a\<close> the type of a coordinate.
\<close>

record ('p, 'a) row =
  Particles :: 'p
  x_position :: 'a
  y_position :: 'a
  z_position :: 'a
  ex_orientation :: 'a
  ey_orientation :: 'a
  ez_orientation :: 'a
  time :: int

text \<open>
  A \<^verbatim>\<open>DataFrame\<close> is its column labels and its rows. \<^verbatim>\<open>pd.DataFrame(data)\<close> takes
  the labels from the dicts of \<^verbatim>\<open>data\<close>, so the frame built from the empty list has no
  column at all.
\<close>

record ('p, 'a) dataframe =
  columns :: "string list"
  rows :: "('p, 'a) row list"

definition row_keys :: "string list" where
  "row_keys = [''Particles'', ''x-position'', ''y-position'', ''z-position'',
     ''ex-orientation'', ''ey-orientation'', ''ez-orientation'', ''time'']"

definition DataFrame :: "('p, 'a) row list \<Rightarrow> ('p, 'a) dataframe" where
  "DataFrame data = \<lparr>columns = (if data = [] then [] else row_keys), rows = data\<rparr>"

text \<open>\<^verbatim>\<open>df[name]\<close>: the column, or \<^verbatim>\<open>KeyError\<close> when the frame has no such label.\<close>

definition column ::
  "('p, 'a) dataframe \<Rightarrow> string \<Rightarrow> (('p, 'a) row \<Rightarrow> 'v) \<Rightarrow> error + 'v list" where
  "column df name field =
     (if name \<in> set (columns df) then Inr (map field (rows df)) else Inl (KeyError name))"

text \<open>\<^verbatim>\<open>Series.unique()\<close>: the distinct values in order of first appearance.\<close>

fun unique :: "'v list \<Rightarrow> 'v list" where
  "unique [] = []"
| "unique (v # vs) = v # unique (filter (\<lambda>u. u \<noteq> v) vs)"

section \<open>Reading the binary trajectory\<close>

text \<open>
  A byte of the file is a number below 256; a stored value is read modulo 256, so every
  list of numbers stands for a file.
\<close>

type_synonym byte = nat

text \<open>Little-endian value of a group of bytes, as on the platforms numpy reads natively.\<close>

definition le_nat :: "byte list \<Rightarrow> nat" where
  "le_nat bs = foldr (\<lambda>b a. b mod 256 + 256 * a) bs 0"

text \<open>\<^verbatim>\<open>np.int32\<close>: four bytes in two's complement.\<close>

definition int32_of :: "byte list \<Rightarrow> int" where
  "int32_of bs =
     (let v = le_nat bs mod 2 ^ 32
      in if v < 2 ^ 31 then int v else int v - 2 ^ 32)"

text \<open>The 64-bit pattern of a \<^verbatim>\<open>float64\<close>, for a table that only stores the values.\<close>

definition float64_bits :: "byte list \<Rightarrow> nat" where
  "float64_bits bs = le_nat bs mod 2 ^ 64"

fun chunks :: "nat \<Rightarrow> nat \<Rightarrow> byte list \<Rightarrow> byte list list" where
  "chunks itemsize 0 f = []"
| "chunks itemsize (Suc k) f = take itemsize f # chunks itemsize k (drop itemsize f)"

text \<open>
  \<^verbatim>\<open>np.fromfile(f, dtype, count)\<close> on the rest \<open>f\<close> of an open binary file: the items
  read and the rest of the file after the read. numpy reads whole items only and
  returns a shorter array, without raising, when the file ends early; the read then
  stops at the end of the file. A negative count reads every whole item that is left.
\<close>

definition fromfile :: "nat \<Rightarrow> int \<Rightarrow> byte list \<Rightarrow> byte list list \<times> byte list" where
  "fromfile itemsize count f =
     (let avail = length f div itemsize;
          n = (if count < 0 then avail else min (nat count) avail)
      in (chunks itemsize n f,
          if count < 0 \<or> int n = count then drop (n * itemsize) f else []))"

text \<open>\<^verbatim>\<open>a[i]\<close> for a numpy array or a Python list and an index \<open>i \<ge> 0\<close>.\<close>

definition getitem :: "'v list \<Rightarrow> nat \<Rightarrow> error + 'v" where
  "getitem a i = (if i < length a then Inr (a ! i) else Inl (IndexError i (length a)))"

text \<open>
  The dict literal of the inner loop; its entries are evaluated in the order written,
  so the first array that is too short raises.
\<close>

definition make_row ::
  "(byte list \<Rightarrow> 'a) \<Rightarrow> int \<Rightarrow> byte list list \<Rightarrow> byte list list \<Rightarrow> byte list list \<Rightarrow>
   byte list list \<Rightarrow> byte list list \<Rightarrow> byte list list \<Rightarrow> nat \<Rightarrow> error + (int, 'a) row" where
  "make_row float64 timestep x y z ex ey ez particle_id =
     bind (getitem x particle_id) (\<lambda>xv.
     bind (getitem y particle_id) (\<lambda>yv.
     bind (getitem z particle_id) (\<lambda>zv.
     bind (getitem ex particle_id) (\<lambda>exv.
     bind (getitem ey particle_id) (\<lambda>eyv.
     bind (getitem ez particle_id) (\<lambda>ezv.
       Inr \<lparr>Particles = int particle_id,
            x_position = float64 xv, y_position = float64 yv, z_position = float64 zv,
            ex_orientation = float64 exv, ey_orientation = float64 eyv,
            ez_orientation = float64 ezv, time = timestep\<rparr>))))))"

text \<open>\<^verbatim>\<open>for particle_id in range(num_particles): data.append(...)\<close>\<close>

fun append_rows :: "(nat \<Rightarrow> error + 'r) \<Rightarrow> nat list \<Rightarrow> 'r list \<Rightarrow> error + 'r list" where
  "append_rows mk [] data = Inr data"
| "append_rows mk (particle_id # ids) data =
     bind (mk particle_id) (\<lambda>r. append_rows mk ids (data @ [r]))"

text \<open>
  \<^verbatim>\<open>for frame_idx in range(num_frames)\<close>: the first argument counts the frames still
  to read, \<open>f\<close> is the rest of the file and \<open>data\<close> the rows appended so far.
\<close>

fun read_frames ::
  "(byte list \<Rightarrow> 'a) \<Rightarrow> nat \<Rightarrow> int \<Rightarrow> byte list \<Rightarrow> (int, 'a) row list \<Rightarrow>
   error + (int, 'a) row list" where
  "read_frames float64 0 num_particles f data = Inr data"
| "read_frames float64 (Suc k) num_particles f data =
     (let (t, f1) = fromfile 4 1 f in
      bind (getitem t 0) (\<lambda>tb.
        let timestep = int32_of tb;
            (x, f2) = fromfile 8 num_particles f1;
            (y, f3) = fromfile 8 num_particles f2;
            (z, f4) = fromfile 8 num_particles f3;
            (ex, f5) = fromfile 8 num_particles f4;
            (ey, f6) = fromfile 8 num_particles f5;
            (ez, f7) = fromfile 8 num_particles f6
        in bind (append_rows (make_row float64 timestep x y z ex ey ez)
                   [0..<nat num_particles] data)
             (\<lambda>data'. read_frames float64 k num_particles f7 data')))"

text \<open>The body of \<^verbatim>\<open>with open(filename, "rb") as f\<close>.\<close>

definition decode_binary :: "(byte list \<Rightarrow> 'a) \<Rightarrow> byte list \<Rightarrow> error + (int, 'a) dataframe" where
  "decode_binary float64 f =
     (let (h1, f1) = fromfile 4 1 f in
      bind (getitem h1 0) (\<lambda>b1.
        let num_particles = int32_of b1;
            (h2, f2) = fromfile 4 1 f1
        in bind (getitem h2 0) (\<lambda>b2.
             let num_frames = int32_of b2
             in bind (read_frames float64 (nat num_frames) num_particles f2 [])
                  (\<lambda>data. Inr (DataFrame data)))))"

section \<open>Reading the CSV trajectory\<close>

text \<open>
  \<^verbatim>\<open>pd.read_csv\<close> is pandas' parser and is not modelled; its result is the input. The
  identifier column has an integer dtype when every entry is an integer, and dtype
  \<^verbatim>\<open>object\<close>, holding the text of each entry, otherwise. An empty field, which
  pandas reads as NaN, is the empty text here: both have no digit and extract to NaN.
\<close>

datatype 'a csv_table =
    NumericIds "(int, 'a) dataframe"
  | ObjectIds "(string, 'a) dataframe"

definition is_digit :: "char \<Rightarrow> bool" where
  "is_digit c = (c \<in> set ''0123456789'')"

text \<open>
  \<^verbatim>\<open>Series.str.extract(r"(\d+)")\<close> on one entry: the first match of the pattern, which
  is the leftmost maximal run of digits, or NaN (\<open>None\<close>) when the entry has no digit.
\<close>

definition str_extract :: "string \<Rightarrow> string option" where
  "str_extract s =
     (let t = dropWhile (\<lambda>c. \<not> is_digit c) s
      in if t = [] then None else Some (takeWhile is_digit t))"

text \<open>The leftmost maximal run of digits of a label, empty when the label has no digit.\<close>

definition first_digit_run :: "string \<Rightarrow> string" where
  "first_digit_run s = takeWhile is_digit (dropWhile (\<lambda>c. \<not> is_digit c) s)"

definition digit_value :: "char \<Rightarrow> int" where
  "digit_value c = of_char c - 48"

definition int_of_digits :: "string \<Rightarrow> int" where
  "int_of_digits s = foldl (\<lambda>a c. 10 * a + digit_value c) 0 s"

text \<open>
  Python's \<^verbatim>\<open>int(s)\<close> for a non-empty text of decimal digits. CPython refuses a text
  of more than \<^verbatim>\<open>sys.get_int_max_str_digits()\<close> digits, leading zeros included; the
  limit is 4300 unless the interpreter is configured otherwise, and the scripts do not
  configure it.
\<close>

definition INT_MAX_STR_DIGITS :: nat where
  "INT_MAX_STR_DIGITS = 4300"

definition py_int :: "string \<Rightarrow> error + int" where
  "py_int s =
     (if INT_MAX_STR_DIGITS < length s
      then Inl (ValueError
             (''Exceeds the limit (4300 digits) for integer string conversion: value has ''
              @ str_nat (length s)
              @ '' digits; use sys.set_int_max_str_digits() to increase the limit''))
      else Inr (int_of_digits s))"

text \<open>
  numpy's conversion of one entry of an \<^verbatim>\<open>object\<close> array to \<^verbatim>\<open>int64\<close> (the type that
  \<^verbatim>\<open>int\<close> names where a C \<^verbatim>\<open>long\<close> has 64 bits): the entry is made a Python integer, which
  raises \<^verbatim>\<open>ValueError\<close> for NaN, and the integer is stored as a C \<^verbatim>\<open>long\<close>, which
  raises \<^verbatim>\<open>OverflowError\<close> from \<^verbatim>\<open>2**63\<close> on. The entries here are never negative.
\<close>

definition int64_of_object :: "string option \<Rightarrow> error + int" where
  "int64_of_object v =
     (case v of
        None \<Rightarrow> Inl (ValueError ''cannot convert float NaN to integer'')
      | Some s \<Rightarrow>
          bind (py_int s) (\<lambda>i.
            if i < 2 ^ 63 then Inr i
            else Inl (OverflowError ''Python int too large to convert to C long'')))"

text \<open>
  \<^verbatim>\<open>.astype(int)\<close> converts the column entry by entry in row order and stops at the
  first entry that raises; none of the exceptions carries a position.
\<close>

fun astype_int :: "string option list \<Rightarrow> error + int list" where
  "astype_int [] = Inr []"
| "astype_int (v # vs) =
     bind (int64_of_object v) (\<lambda>i.
     bind (astype_int vs) (\<lambda>ids. Inr (i # ids)))"

definition with_particles :: "('p, 'a) row \<Rightarrow> 'q \<Rightarrow> ('q, 'a) row" where
  "with_particles r i =
     \<lparr>Particles = i, x_position = x_position r, y_position = y_position r,
      z_position = z_position r, ex_orientation = ex_orientation r,
      ey_orientation = ey_orientation r, ez_orientation = ez_orientation r,
      time = time r\<rparr>"

definition read_csv_simulation :: "'a csv_table \<Rightarrow> error + (int, 'a) dataframe" where
  "read_csv_simulation t =
     (case t of
        NumericIds df \<Rightarrow> bind (column df ''Particles'' Particles) (\<lambda>_. Inr df)
      | ObjectIds df \<Rightarrow>
          bind (column df ''Particles'' Particles) (\<lambda>labels.
          bind (astype_int (map str_extract labels)) (\<lambda>ids.
            Inr \<lparr>columns = columns df, rows = map2 with_particles (rows df) ids\<rparr>)))"

text \<open>
  \<^verbatim>\<open>Path.with_suffix(".csv")\<close> for a path whose last component has at most an
  ordinary suffix (no leading or trailing dot).
\<close>

definition with_suffix_csv :: "string \<Rightarrow> string" where
  "with_suffix_csv p =
     (let name = rev (takeWhile (\<lambda>c. c \<noteq> CHR ''/'') (rev p));
          parent = rev (dropWhile (\<lambda>c. c \<noteq> CHR ''/'') (rev p));
          stem = (if CHR ''.'' \<in> set name
                  then rev (tl (dropWhile (\<lambda>c. c \<noteq> CHR ''.'') (rev name)))
                  else name)
      in parent @ stem @ ''.csv'')"

text \<open>
  \<^verbatim>\<open>read_binary_simulation\<close>: the binary file when it exists, else the sibling CSV file,
  else \<^verbatim>\<open>FileNotFoundError\<close>. The two files are given as they are found on disk.
\<close>

record 'a input_files =
  bin_file :: "byte list option"
  csv_file :: "'a csv_table option"

definition read_binary_simulation ::
  "(byte list \<Rightarrow> 'a) \<Rightarrow> string \<Rightarrow> 'a input_files \<Rightarrow> error + (int, 'a) dataframe" where
  "read_binary_simulation float64 filename inp =
     (case bin_file inp of
        None \<Rightarrow>
          (case csv_file inp of
             Some t \<Rightarrow> read_csv_simulation t
           | None \<Rightarrow>
               Inl (FileNotFoundError
                 (''Neither '' @ filename @ '' nor '' @ with_suffix_csv filename @ '' found'')))
      | Some f \<Rightarrow> decode_binary float64 f)"

section \<open>Cylinder dimensions\<close>

text \<open>
  \<^verbatim>\<open>read_parameters\<close>. The parameter file is its decoded text, or \<open>None\<close> when
  \<^verbatim>\<open>open\<close> raises. Python's \<^verbatim>\<open>float(s)\<close> is a parameter of the model: \<open>None\<close> where
  it raises \<^verbatim>\<open>ValueError\<close>.
\<close>

record params =
  Wall :: real
  height :: real

definition is_space :: "char \<Rightarrow> bool" where
  "is_space c = (of_char c \<in> {9, 10, 11, 12, 13, 28, 29, 30, 31, 32 :: nat})"

definition strip :: "string \<Rightarrow> string" where
  "strip s = rev (dropWhile is_space (rev (dropWhile is_space s)))"

text \<open>\<^verbatim>\<open>f.readline()\<close> at the start of the file: the first line with its newline.\<close>

definition readline :: "string \<Rightarrow> string" where
  "readline s =
     (let l = takeWhile (\<lambda>c. c \<noteq> CHR 0x0A) s
      in if length l < length s then l @ [CHR 0x0A] else l)"

text \<open>\<^verbatim>\<open>line.split(sep)\<close> for a one-character separator.\<close>

fun split :: "char \<Rightarrow> string \<Rightarrow> string list" where
  "split sep [] = [[]]"
| "split sep (c # cs) =
     (if c = sep then [] # split sep cs
      else (case split sep cs of w # ws \<Rightarrow> (c # w) # ws | [] \<Rightarrow> [[c]]))"

definition to_float :: "(string \<Rightarrow> real option) \<Rightarrow> string \<Rightarrow> error + real" where
  "to_float float s =
     (case float s of
        None \<Rightarrow> Inl (ValueError (''could not convert string to float: '' @ s))
      | Some v \<Rightarrow> Inr v)"

text \<open>The body of the \<^verbatim>\<open>try\<close> block.\<close>

definition parse_parameters ::
  "(string \<Rightarrow> real option) \<Rightarrow> string option \<Rightarrow> error + params" where
  "parse_parameters float parameter_file =
     (case parameter_file of
        None \<Rightarrow> Inl (FileNotFoundError ''parameter.txt'')
      | Some content \<Rightarrow>
          (let line = strip (readline content);
               ps = split (CHR 0x09) line
           in bind (getitem ps 6) (\<lambda>p6.
              bind (to_float float p6) (\<lambda>w.
              bind (getitem ps 7) (\<lambda>p7.
              bind (to_float float p7) (\<lambda>h.
                Inr \<lparr>Wall = w, height = h\<rparr>))))))"

datatype message = Text string | WithError string error

datatype log_record = WARNING message | ERROR message

text \<open>
  \<^verbatim>\<open>except Exception as e: logging.warning(...); return None\<close>. The result is the
  warning logged, if any, and the returned value.
\<close>

definition read_parameters ::
  "(string \<Rightarrow> real option) \<Rightarrow> string option \<Rightarrow> log_record list \<times> params option" where
  "read_parameters float parameter_file =
     (case parse_parameters float parameter_file of
        Inl e \<Rightarrow> ([WARNING (WithError ''Error reading parameters'' e)], None)
      | Inr p \<Rightarrow> ([], Some p))"

text \<open>
  Aggregates of a column. pandas returns NaN for an empty column, written \<open>None\<close>;
  the coordinates themselves are taken to be numbers.
\<close>

fun series_max :: "real list \<Rightarrow> real option" where
  "series_max [] = None"
| "series_max (v # vs) = Some (fold max vs v)"

fun series_min :: "real list \<Rightarrow> real option" where
  "series_min [] = None"
| "series_min (v # vs) = Some (fold min vs v)"

text \<open>
  Python's \<^verbatim>\<open>max(a, b)\<close> returns \<open>b\<close> only if \<open>b > a\<close>, and a comparison with NaN is
  false.
\<close>

fun py_max :: "real option \<Rightarrow> real option \<Rightarrow> real option" where
  "py_max None b = None"
| "py_max (Some a) None = Some a"
| "py_max (Some a) (Some b) = Some (if b > a then b else a)"

record geometry =
  radius :: "real option"
  height_min :: "real option"
  height_max :: "real option"

text \<open>\<^verbatim>\<open>main\<close> of \<^verbatim>\<open>generate_mp4.py\<close>, from \<^verbatim>\<open>if params:\<close> to \<^verbatim>\<open>height_max = ...\<close>.\<close>

definition estimate_mp4 :: "params option \<Rightarrow> (int, real) dataframe \<Rightarrow> error + geometry" where
  "estimate_mp4 ps df =
     bind (case ps of
             Some p \<Rightarrow> Inr (Some (Wall p))
           | None \<Rightarrow>
               bind (column df ''x-position'' x_position) (\<lambda>xs.
               bind (column df ''y-position'' y_position) (\<lambda>ys.
               bind (column df ''z-position'' z_position) (\<lambda>zs.
                 Inr (map_option (\<lambda>m. m * 1.1)
                        (py_max (series_max (map abs xs)) (series_max (map abs ys))))))))
       (\<lambda>W.
     bind (column df ''z-position'' z_position) (\<lambda>zs.
       Inr \<lparr>radius = W, height_min = series_min zs, height_max = series_max zs\<rparr>))"

text \<open>\<^verbatim>\<open>main\<close> of \<^verbatim>\<open>generate_video.py\<close>, the same step.\<close>

definition estimate_video :: "params option \<Rightarrow> (int, real) dataframe \<Rightarrow> error + geometry" where
  "estimate_video ps df =
     (case ps of
        Some p \<Rightarrow>
          Inr \<lparr>radius = Some (Wall p), height_min = Some (- height p),
               height_max = Some (height p)\<rparr>
      | None \<Rightarrow>
          bind (column df ''x-position'' x_position) (\<lambda>xs.
          bind (column df ''y-position'' y_position) (\<lambda>ys.
          bind (column df ''z-position'' z_position) (\<lambda>zs.
            Inr \<lparr>radius = map_option (\<lambda>m. sqrt m * 1.1)
                             (series_max (map2 (\<lambda>x y. x\<^sup>2 + y\<^sup>2) xs ys)),
                 height_min = series_min zs, height_max = series_max zs\<rparr>))))"

section \<open>Colours of the tracked particles\<close>

text \<open>
  \<^verbatim>\<open>colors = [f"hsl({int(360 * i / num_tracked)}, 70%, 50%)" for i in range(num_tracked)]\<close>
  The division is Python's true division and \<^verbatim>\<open>int\<close> truncates; both operands are
  non-negative, so truncation is the floor.
\<close>

definition hue :: "nat \<Rightarrow> nat \<Rightarrow> nat" where
  "hue i num_tracked = nat \<lfloor>(360 * real i) / real num_tracked\<rfloor>"

definition hsl_color :: "nat \<Rightarrow> string" where
  "hsl_color h = ''hsl('' @ str_nat h @ '', 70%, 50%)''"

definition colors :: "nat \<Rightarrow> string list" where
  "colors num_tracked = map (\<lambda>i. hsl_color (hue i num_tracked)) [0..<num_tracked]"

text \<open>\<^verbatim>\<open>dict(pairs)\<close>: a later pair with the same key replaces the earlier one.\<close>

definition dict :: "('k \<times> 'v) list \<Rightarrow> ('k \<rightharpoonup> 'v)" where
  "dict ps = foldl (\<lambda>m (k, v). m(k \<mapsto> v)) Map.empty ps"

definition particle_colors :: "int list \<Rightarrow> nat \<Rightarrow> (int \<rightharpoonup> string)" where
  "particle_colors tracked_particles num_tracked =
     dict (zip tracked_particles (colors num_tracked))"

section \<open>Selecting the tracked particles\<close>

definition TRACK_PERCENTAGE :: real where
  "TRACK_PERCENTAGE = 1 / 100"

text \<open>
  \<^verbatim>\<open>max(1, int(len(all_particles) * TRACK_PERCENTAGE))\<close>, for any fraction in place
  of the constant.
\<close>

definition num_tracked_of :: "real \<Rightarrow> nat \<Rightarrow> nat" where
  "num_tracked_of fraction n = max 1 (nat \<lfloor>real n * fraction\<rfloor>)"

text \<open>
  \<^verbatim>\<open>np.random.choice(a, size=sample_size, replace=False)\<close>. numpy draws a permutation of the
  positions \<open>0, \<dots>, len(a) - 1\<close> and returns the entries at its first \<open>sample_size\<close> positions;
  the generator is the parameter \<open>permutation\<close>, which maps the population size to the
  permutation drawn.
\<close>

definition random_choice :: "(nat \<Rightarrow> nat list) \<Rightarrow> 'v list \<Rightarrow> nat \<Rightarrow> error + 'v list" where
  "random_choice permutation a sample_size =
     (if a = [] \<and> sample_size \<noteq> 0
        then Inl (ValueError ''a cannot be empty unless no samples are taken'')
      else if length a < sample_size
        then Inl (ValueError ''Cannot take a larger sample than population when replace is False'')
      else Inr (map (\<lambda>i. a ! i) (take sample_size (permutation (length a)))))"

text \<open>
  The selection of \<^verbatim>\<open>generate_tracking_mp4\<close> and \<^verbatim>\<open>create_tracking_visualization\<close>:
  the tracked count, the tracked identifiers in the order drawn and their colours.
\<close>

definition select_tracked ::
  "real \<Rightarrow> (nat \<Rightarrow> nat list) \<Rightarrow> int list \<Rightarrow> error + nat \<times> int list \<times> (int \<rightharpoonup> string)" where
  "select_tracked fraction permutation all_particles =
     (let num_tracked = num_tracked_of fraction (length all_particles)
      in bind (random_choice permutation all_particles num_tracked) (\<lambda>tracked_particles.
           Inr (num_tracked, tracked_particles,
                particle_colors tracked_particles num_tracked)))"

section \<open>Frames, encoder and the main program\<close>

text \<open>
  The plotly figure written by \<^verbatim>\<open>fig.write_image\<close> is kept as what determines it:
  the title, the cylinder and the points of the frame, with the colour of each point in
  the tracking view. The rasteriser itself is outside the scripts.
\<close>

datatype image =
    StandardFrame string geometry "(real \<times> real \<times> real) list"
  | TrackingFrame string geometry "(real \<times> real \<times> real) list" "string list"

text \<open>
  The part of the outside world the scripts change: the directories of frame files and
  the records logged at level WARNING or ERROR. Progress messages at level INFO are left
  out.
\<close>

record world =
  dirs :: "string \<rightharpoonup> (string \<rightharpoonup> image)"
  logged :: "log_record list"

record completed_process =
  returncode :: int
  stdout :: string
  stderr :: string

text \<open>
  What the scripts read from outside: whether \<^verbatim>\<open>kaleido\<close> can be imported and
  \<^verbatim>\<open>ffmpeg\<close> is on the path, the input files, numpy's reading of eight bytes as a
  float, Python's \<^verbatim>\<open>float\<close>, the random generator, and the encoder, which answers a
  command line in a state of the directories.
\<close>

record env =
  kaleido_importable :: bool
  ffmpeg_on_path :: bool
  simulation_files :: "real input_files"
  decode_float64 :: "byte list \<Rightarrow> real"
  parameter_text :: "string option"
  parse_float :: "string \<Rightarrow> real option"
  rng_permutation :: "nat \<Rightarrow> nat list"
  ffmpeg :: "string list \<Rightarrow> (string \<rightharpoonup> (string \<rightharpoonup> image)) \<Rightarrow> completed_process"

definition INPUT_FILE :: string where "INPUT_FILE = ''data/simulation.bin''"
definition OUTPUT_DIR :: string where "OUTPUT_DIR = ''figures''"
definition TEMP_FRAMES_DIR :: string where "TEMP_FRAMES_DIR = ''temp_frames''"
definition FPS :: nat where "FPS = 30"

definition str_int :: "int \<Rightarrow> string" where
  "str_int i = (if i < 0 then ''-'' @ str_nat (nat (- i)) else str_nat (nat i))"

text \<open>\<^verbatim>\<open>f"frame_{idx:04d}.png"\<close>\<close>

definition format_04d :: "nat \<Rightarrow> string" where
  "format_04d idx = replicate (4 - length (str_nat idx)) (CHR ''0'') @ str_nat idx"

definition frame_name :: "nat \<Rightarrow> string" where
  "frame_name idx = ''frame_'' @ format_04d idx @ ''.png''"

definition select_rows :: "('p, 'a) dataframe \<Rightarrow> (('p, 'a) row \<Rightarrow> bool) \<Rightarrow> ('p, 'a) dataframe" where
  "select_rows df P = \<lparr>columns = columns df, rows = filter P (rows df)\<rparr>"

definition points_of :: "(int, real) dataframe \<Rightarrow> error + (real \<times> real \<times> real) list" where
  "points_of frame_data =
     bind (column frame_data ''x-position'' x_position) (\<lambda>xs.
     bind (column frame_data ''y-position'' y_position) (\<lambda>ys.
     bind (column frame_data ''z-position'' z_position) (\<lambda>zs.
       Inr (zip xs (zip ys zs)))))"

definition render_standard_frame ::
  "(int, real) dataframe \<Rightarrow> int \<Rightarrow> geometry \<Rightarrow> error + image" where
  "render_standard_frame df timestep g =
     bind (column df ''time'' time) (\<lambda>_.
     bind (points_of (select_rows df (\<lambda>r. time r = timestep))) (\<lambda>pts.
       Inr (StandardFrame (''Active Brownian Particles - Frame '' @ str_int timestep) g pts)))"

definition lookup :: "('k \<rightharpoonup> string) \<Rightarrow> 'k \<Rightarrow> error + string" where
  "lookup d k = (case d k of None \<Rightarrow> Inl (KeyError ''particle'') | Some v \<Rightarrow> Inr v)"

fun lookup_all :: "('k \<rightharpoonup> string) \<Rightarrow> 'k list \<Rightarrow> error + string list" where
  "lookup_all d [] = Inr []"
| "lookup_all d (k # ks) =
     bind (lookup d k) (\<lambda>v. bind (lookup_all d ks) (\<lambda>vs. Inr (v # vs)))"

definition render_tracking_frame ::
  "(int, real) dataframe \<Rightarrow> int \<Rightarrow> int list \<Rightarrow> (int \<rightharpoonup> string) \<Rightarrow> geometry \<Rightarrow> error + image" where
  "render_tracking_frame df timestep tracked_particles particle_colors' g =
     bind (column df ''time'' time) (\<lambda>_.
     bind (column df ''Particles'' Particles) (\<lambda>_.
       let frame_data =
             select_rows df (\<lambda>r. time r = timestep \<and> Particles r \<in> set tracked_particles)
       in bind (lookup_all particle_colors' (map Particles (rows frame_data))) (\<lambda>cols.
          bind (points_of frame_data) (\<lambda>pts.
            Inr (TrackingFrame
                   (''Particle Tracking - '' @ str_nat (length tracked_particles)
                      @ '' Particles - Frame '' @ str_int timestep) g pts cols)))))"

text \<open>\<^verbatim>\<open>temp_dir.mkdir(parents=True, exist_ok=True)\<close>: an existing directory keeps its files.\<close>

definition mkdir :: "string \<Rightarrow> world \<Rightarrow> world" where
  "mkdir d w =
     w\<lparr>dirs := (dirs w)(d \<mapsto> (case dirs w d of None \<Rightarrow> Map.empty | Some files \<Rightarrow> files))\<rparr>"

definition write_image :: "string \<Rightarrow> string \<Rightarrow> image \<Rightarrow> world \<Rightarrow> error + world" where
  "write_image d name img w =
     (case dirs w d of
        None \<Rightarrow> Inl (FileNotFoundError (d @ ''/'' @ name))
      | Some files \<Rightarrow> Inr (w\<lparr>dirs := (dirs w)(d \<mapsto> files(name \<mapsto> img))\<rparr>))"

text \<open>\<^verbatim>\<open>shutil.rmtree(temp_dir)\<close>\<close>

definition rmtree :: "string \<Rightarrow> world \<Rightarrow> world" where
  "rmtree d w = w\<lparr>dirs := (dirs w)(d := None)\<rparr>"

text \<open>
  \<^verbatim>\<open>for idx, timestep in enumerate(timesteps)\<close>: render the frame and write it under
  its sequential name. An exception leaves the frames written so far.
\<close>

fun render_frames ::
  "(int \<Rightarrow> error + image) \<Rightarrow> string \<Rightarrow> (nat \<times> int) list \<Rightarrow> world \<Rightarrow> world \<times> (error + unit)" where
  "render_frames render temp_dir [] w = (w, Inr ())"
| "render_frames render temp_dir ((idx, timestep) # rest) w =
     (case render timestep of
        Inl e \<Rightarrow> (w, Inl e)
      | Inr img \<Rightarrow>
          (case write_image temp_dir (frame_name idx) img w of
             Inl e \<Rightarrow> (w, Inl e)
           | Inr w' \<Rightarrow> render_frames render temp_dir rest w'))"

definition ffmpeg_cmd :: "string \<Rightarrow> string \<Rightarrow> string list" where
  "ffmpeg_cmd temp_dir output_mp4 =
     [''ffmpeg'', ''-y'', ''-framerate'', str_nat FPS, ''-i'', temp_dir @ ''/frame_%04d.png'',
      ''-c:v'', ''libx264'', ''-pix_fmt'', ''yuv420p'', ''-crf'', ''23'', output_mp4]"

text \<open>\<^verbatim>\<open>subprocess.run(cmd, check=True, capture_output=True)\<close>\<close>

definition run_checked :: "env \<Rightarrow> string list \<Rightarrow> world \<Rightarrow> error + completed_process" where
  "run_checked env cmd w =
     (let p = ffmpeg env cmd (dirs w)
      in if returncode p \<noteq> 0
         then Inl (CalledProcessError (returncode p) (stdout p) (stderr p))
         else Inr p)"

text \<open>
  The end of \<^verbatim>\<open>generate_standard_mp4\<close> and of \<^verbatim>\<open>generate_tracking_mp4\<close>, the same
  statements in both: run the encoder, then remove the directory of frames.
\<close>

definition assemble :: "env \<Rightarrow> string \<Rightarrow> string \<Rightarrow> world \<Rightarrow> world \<times> (error + unit)" where
  "assemble env temp_dir output_mp4 w =
     (case run_checked env (ffmpeg_cmd temp_dir output_mp4) w of
        Inl e \<Rightarrow> (w, Inl e)
      | Inr _ \<Rightarrow> (rmtree temp_dir w, Inr ()))"

text \<open>\<^verbatim>\<open>timesteps = sorted(df["time"].unique())\<close>\<close>

definition timesteps_of :: "('p, 'a) dataframe \<Rightarrow> error + int list" where
  "timesteps_of df = bind (column df ''time'' time) (\<lambda>ts. Inr (sort (unique ts)))"

text \<open>
  \<open>base\<close> is the prefix of the configured paths: empty in \<^verbatim>\<open>generate_mp4.py\<close>,
  \<^verbatim>\<open>../\<close> in \<^verbatim>\<open>scripts/generate_mp4.py\<close>.
\<close>

definition generate_standard_mp4 ::
  "string \<Rightarrow> env \<Rightarrow> (int, real) dataframe \<Rightarrow> geometry \<Rightarrow> world \<Rightarrow> world \<times> (error + unit)" where
  "generate_standard_mp4 base env df g w =
     (case timesteps_of df of
        Inl e \<Rightarrow> (w, Inl e)
      | Inr timesteps \<Rightarrow>
          (let temp_dir = base @ TEMP_FRAMES_DIR @ ''/standard'';
               w1 = mkdir temp_dir w
           in case render_frames (\<lambda>t. render_standard_frame df t g) temp_dir
                     (enumerate 0 timesteps) w1 of
                (w2, Inl e) \<Rightarrow> (w2, Inl e)
              | (w2, Inr _) \<Rightarrow>
                  assemble env temp_dir (base @ OUTPUT_DIR @ ''/particles_standard.mp4'') w2))"

definition generate_tracking_mp4 ::
  "string \<Rightarrow> env \<Rightarrow> (int, real) dataframe \<Rightarrow> geometry \<Rightarrow> world \<Rightarrow> world \<times> (error + unit)" where
  "generate_tracking_mp4 base env df g w =
     (case timesteps_of df of
        Inl e \<Rightarrow> (w, Inl e)
      | Inr timesteps \<Rightarrow>
          (case bind (column df ''Particles'' Particles) (\<lambda>ids.
                  select_tracked TRACK_PERCENTAGE (rng_permutation env) (unique ids)) of
             Inl e \<Rightarrow> (w, Inl e)
           | Inr (num_tracked, tracked_particles, particle_colors') \<Rightarrow>
               (let temp_dir = base @ TEMP_FRAMES_DIR @ ''/tracking'';
                    w1 = mkdir temp_dir w
                in case render_frames
                          (\<lambda>t. render_tracking_frame df t tracked_particles particle_colors' g)
                          temp_dir (enumerate 0 timesteps) w1 of
                     (w2, Inl e) \<Rightarrow> (w2, Inl e)
                   | (w2, Inr _) \<Rightarrow>
                       assemble env temp_dir
                         (base @ OUTPUT_DIR @ ''/particles_tracked.mp4'') w2)))"

definition logging_call :: "log_record \<Rightarrow> world \<Rightarrow> world" where
  "logging_call r w = w\<lparr>logged := logged w @ [r]\<rparr>"

definition check_dependencies :: "env \<Rightarrow> world \<Rightarrow> world \<times> bool" where
  "check_dependencies env w =
     (if \<not> kaleido_importable env
        then (logging_call (ERROR (Text ''kaleido not installed. Install with: uv add kaleido'')) w,
              False)
      else if \<not> ffmpeg_on_path env
        then (logging_call (ERROR (Text ''ffmpeg not found. Install with: brew install ffmpeg'')) w,
              False)
      else (w, True))"

text \<open>The \<^verbatim>\<open>try\<close> block of \<^verbatim>\<open>main\<close> and its handler.\<close>

definition generate_videos ::
  "string \<Rightarrow> env \<Rightarrow> (int, real) dataframe \<Rightarrow> geometry \<Rightarrow> world \<Rightarrow> world \<times> (error + unit)" where
  "generate_videos base env df g w =
     (case generate_standard_mp4 base env df g w of
        (w1, Inl e) \<Rightarrow> (w1, Inl e)
      | (w1, Inr _) \<Rightarrow> generate_tracking_mp4 base env df g w1)"

definition main :: "string \<Rightarrow> env \<Rightarrow> world \<Rightarrow> world \<times> (error + int)" where
  "main base env w =
     (case check_dependencies env w of
        (w1, False) \<Rightarrow> (w1, Inr 1)
      | (w1, True) \<Rightarrow>
          (case read_binary_simulation (decode_float64 env) (base @ INPUT_FILE)
                  (simulation_files env) of
             Inl e \<Rightarrow> (w1, Inl e)
           | Inr df \<Rightarrow>
               (let (warnings, ps) = read_parameters (parse_float env) (parameter_text env);
                    w2 = w1\<lparr>logged := logged w1 @ warnings\<rparr>
                in case estimate_mp4 ps df of
                     Inl e \<Rightarrow> (w2, Inl e)
                   | Inr g \<Rightarrow>
                       (case generate_videos base env df g w2 of
                          (w3, Inl (CalledProcessError rc out err)) \<Rightarrow>
                            (logging_call (ERROR (Text err))
                               (logging_call
                                  (ERROR (WithError ''ffmpeg failed''
                                            (CalledProcessError rc out err))) w3),
                             Inr 1)
                        | (w3, Inl e) \<Rightarrow> (w3, Inl e)
                        | (w3, Inr _) \<Rightarrow> (w3, Inr 0)))))"

text \<open>
  The exit status of the process. \<^verbatim>\<open>generate_mp4.py\<close> ends with
  \<^verbatim>\<open>exit(main())\<close>; \<^verbatim>\<open>scripts/generate_mp4.py\<close> ends with \<^verbatim>\<open>main()\<close> and drops the
  value returned. An exception that nothing catches ends the interpreter with status 1.
\<close>

definition exit_status_generate_mp4 :: "env \<Rightarrow> world \<Rightarrow> int" where
  "exit_status_generate_mp4 env w =
     (case snd (main '''' env w) of Inl e \<Rightarrow> 1 | Inr code \<Rightarrow> code)"

definition exit_status_scripts_generate_mp4 :: "env \<Rightarrow> world \<Rightarrow> int" where
  "exit_status_scripts_generate_mp4 env w =
     (case snd (main ''../'' env w) of Inl e \<Rightarrow> 1 | Inr code \<Rightarrow> 0)"

section \<open>The interactive document of \<^verbatim>\<open>generate_video.py\<close>\<close>

text \<open>
  \<^verbatim>\<open>create_standard_visualization\<close> builds one plotly frame per sorted distinct
  timestep and names it \<^verbatim>\<open>f"frame{idx}"\<close>; the frame is kept as its name, its timestep
  and its rows. The figure starts from \<^verbatim>\<open>timesteps[0]\<close>, which raises on an empty list.
\<close>

fun named_frames ::
  "('p, real) dataframe \<Rightarrow> (nat \<times> int) list \<Rightarrow> (string \<times> int \<times> ('p, real) row list) list" where
  "named_frames df [] = []"
| "named_frames df ((idx, timestep) # rest) =
     (''frame'' @ str_nat idx, timestep, filter (\<lambda>r. time r = timestep) (rows df))
       # named_frames df rest"

definition create_standard_visualization ::
  "('p, real) dataframe \<Rightarrow> error + (string \<times> int \<times> ('p, real) row list) list" where
  "create_standard_visualization df =
     bind (timesteps_of df) (\<lambda>timesteps.
       let frames = named_frames df (enumerate 0 timesteps)
       in bind (getitem timesteps 0) (\<lambda>_. Inr frames))"

section \<open>Facts about decimal text and hues\<close>

lemma digit_char_inj:
  assumes "d < 10" "e < 10" "digit_char d = digit_char e"
  shows "d = e"
proof -
  have dist: "distinct ''0123456789''" by simp
  have len: "length ''0123456789'' = 10" by simp
  show ?thesis
    using assms nth_eq_iff_index_eq [OF dist, of d e]
    unfolding digit_char_def len by blast
qed

lemma str_nat_length_pos: "0 < length (str_nat n)"
  by (subst str_nat.simps) simp

lemma str_nat_inj: "str_nat m = str_nat n \<Longrightarrow> m = n"
proof (induction m arbitrary: n rule: less_induct)
  case (less m)
  show ?case
  proof (cases "m < 10")
    case m: True
    show ?thesis
    proof (cases "n < 10")
      case True
      with m less.prems show ?thesis
        by (simp add: str_nat.simps [of m] str_nat.simps [of n] digit_char_inj)
    next
      case False
      have "length (str_nat n) = Suc (length (str_nat (n div 10)))"
        using False by (subst str_nat.simps) simp
      moreover have "length (str_nat m) = 1"
        using m by (subst str_nat.simps) simp
      ultimately show ?thesis
        using less.prems str_nat_length_pos [of "n div 10"] by simp
    qed
  next
    case m: False
    show ?thesis
    proof (cases "n < 10")
      case True
      have "length (str_nat m) = Suc (length (str_nat (m div 10)))"
        using m by (subst str_nat.simps) simp
      moreover have "length (str_nat n) = 1"
        using True by (subst str_nat.simps) simp
      ultimately show ?thesis
        using less.prems str_nat_length_pos [of "m div 10"] by simp
    next
      case False
      from m False less.prems
      have eq: "str_nat (m div 10) @ [digit_char (m mod 10)]
                = str_nat (n div 10) @ [digit_char (n mod 10)]"
        by (simp add: str_nat.simps [of m] str_nat.simps [of n])
      then have "str_nat (m div 10) = str_nat (n div 10)"
        and d: "digit_char (m mod 10) = digit_char (n mod 10)"
        by simp_all
      moreover have "m div 10 < m" using m by simp
      ultimately have q: "m div 10 = n div 10"
        using less.IH by blast
      have r: "m mod 10 = n mod 10"
        using d by (intro digit_char_inj) simp_all
      show ?thesis
        using q r by (metis div_mult_mod_eq)
    qed
  qed
qed

lemma hsl_color_inj: "hsl_color a = hsl_color b \<longleftrightarrow> a = b"
  by (auto simp: hsl_color_def dest: str_nat_inj)

lemma hue_div: "hue i n = 360 * i div n"
proof -
  have "(360 * real i) / real n = real (360 * i) / real n" by simp
  then show ?thesis
    unfolding hue_def by (simp only: floor_divide_of_nat_eq nat_int)
qed

lemma hue_less_360: "i < n \<Longrightarrow> hue i n < 360"
proof -
  assume "i < n"
  then have "360 * i < 360 * n" by simp
  then show ?thesis
    unfolding hue_div by (simp add: less_mult_imp_div_less mult.commute)
qed

lemma hue_step: "0 < n \<Longrightarrow> n \<le> 360 \<Longrightarrow> hue i n < hue (Suc i) n"
proof -
  assume n: "0 < n" "n \<le> 360"
  have "360 * i div n + 1 = (360 * i + n) div n"
    using n by simp
  also have "\<dots> \<le> (360 * Suc i) div n"
    using n by (intro div_le_mono) simp
  finally show ?thesis by (simp add: hue_div)
qed

lemma hue_strict_mono:
  assumes "0 < n" "n \<le> 360" "i < j"
  shows "hue i n < hue j n"
  using \<open>i < j\<close>
proof (induction j)
  case 0
  then show ?case by simp
next
  case (Suc j)
  show ?case
  proof (cases "i = j")
    case True
    then show ?thesis using hue_step [OF assms(1,2)] by simp
  next
    case False
    with Suc have "hue i n < hue j n" by simp
    also have "\<dots> < hue (Suc j) n" by (rule hue_step [OF assms(1,2)])
    finally show ?thesis .
  qed
qed

lemma colors_length: "length (colors n) = n"
  by (simp add: colors_def)

lemma colors_nth: "i < n \<Longrightarrow> colors n ! i = hsl_color (hue i n)"
  by (simp add: colors_def)

lemma colors_distinct_small:
  assumes "0 < n" "n \<le> 360"
  shows "distinct (colors n)"
proof -
  have "inj_on (\<lambda>i. hsl_color (hue i n)) (set [0..<n])"
  proof (rule inj_onI)
    fix i j
    assume "i \<in> set [0..<n]" "j \<in> set [0..<n]"
      and "hsl_color (hue i n) = hsl_color (hue j n)"
    then have eq: "hue i n = hue j n" by (simp add: hsl_color_inj)
    show "i = j"
    proof (rule ccontr)
      assume "i \<noteq> j"
      then consider "i < j" | "j < i" by linarith
      then show False
        using hue_strict_mono [OF assms, of i j] hue_strict_mono [OF assms, of j i] eq
        by cases simp_all
    qed
  qed
  then show ?thesis
    unfolding colors_def by (simp add: distinct_map)
qed

lemma colors_clash_large:
  assumes "360 < n"
  shows "\<not> distinct (colors n)"
proof
  assume d: "distinct (colors n)"
  have "colors n = map hsl_color (map (\<lambda>i. hue i n) [0..<n])"
    by (simp add: colors_def)
  with d have "distinct (map hsl_color (map (\<lambda>i. hue i n) [0..<n]))"
    by (simp only:)
  then have dh: "distinct (map (\<lambda>i. hue i n) [0..<n])"
    using distinct_map [of hsl_color "map (\<lambda>i. hue i n) [0..<n]"] by blast
  have "set (map (\<lambda>i. hue i n) [0..<n]) \<subseteq> {..<360}"
    using hue_less_360 by auto
  then have "card (set (map (\<lambda>i. hue i n) [0..<n])) \<le> card {..<360::nat}"
    by (intro card_mono) simp_all
  moreover have "card (set (map (\<lambda>i. hue i n) [0..<n])) = n"
    using distinct_card [OF dh] by simp
  ultimately show False using assms by simp
qed

section \<open>Claims about the colours\<close>

text \<open>
  Claim C10. For every tracked count \<open>n \<ge> 1\<close> the \<open>n\<close> colour strings built from the
  truncated hues \<open>int(360 * i / n)\<close> are pairwise distinct exactly when \<open>n \<le> 360\<close>: up to
  360 the truncated hues increase strictly with the position, and above 360 two different
  positions receive the same colour string.
\<close>

theorem colors_distinct_iff_le_360:
  assumes "1 \<le> n"
  shows "(distinct (colors n) \<longleftrightarrow> n \<le> 360)
       \<and> (n \<le> 360 \<longrightarrow> (\<forall>i j. i < j \<and> j < n \<longrightarrow> hue i n < hue j n))
       \<and> (360 < n \<longrightarrow> (\<exists>i j. i < j \<and> j < n \<and> colors n ! i = colors n ! j))"
proof (intro conjI impI allI)
  show "distinct (colors n) \<longleftrightarrow> n \<le> 360"
    using assms colors_distinct_small [of n] colors_clash_large [of n] by fastforce
next
  fix i j
  assume "n \<le> 360" "i < j \<and> j < n"
  then show "hue i n < hue j n"
    using assms hue_strict_mono [of n i j] by simp
next
  assume "360 < n"
  then have "\<not> distinct (colors n)" by (rule colors_clash_large)
  then obtain i j where "i < length (colors n)" "j < length (colors n)" "i \<noteq> j"
    and eq: "colors n ! i = colors n ! j"
    unfolding distinct_conv_nth by blast
  then have ij: "i < n" "j < n" by (simp_all add: colors_length)
  show "\<exists>i j. i < j \<and> j < n \<and> colors n ! i = colors n ! j"
  proof (cases "i < j")
    case True
    with ij eq show ?thesis by blast
  next
    case False
    with \<open>i \<noteq> j\<close> have "j < i" by simp
    with ij eq show ?thesis by metis
  qed
qed

theorem colors_distinct_iff_le_360_witness:
  "(1::nat) \<le> 3 \<and> distinct (colors 3) \<and> hue 0 3 < hue 1 3 \<and> hue 1 3 < hue 2 3"
proof -
  have h: "(1::nat) \<le> 3" by simp
  show ?thesis
    using colors_distinct_iff_le_360 [OF h] by simp
qed

section \<open>Facts about the binary reader\<close>

lemma bind_Inr_iff: "bind m f = Inr b \<longleftrightarrow> (\<exists>a. m = Inr a \<and> f a = Inr b)"
  by (cases m) (simp_all add: bind_def)

lemma bind_Inl_iff: "bind m f = Inl e \<longleftrightarrow> m = Inl e \<or> (\<exists>a. m = Inr a \<and> f a = Inl e)"
  by (cases m) (simp_all add: bind_def)

lemma chunks_length: "length (chunks itemsize k f) = k"
  by (induction k arbitrary: f) simp_all

lemma chunks_numeral:
  "chunks itemsize (numeral k) f =
     take itemsize f # chunks itemsize (pred_numeral k) (drop itemsize f)"
  by (simp add: numeral_eq_Suc)

lemma fromfile_full:
  assumes "0 \<le> c" "0 < itemsize" "fromfile itemsize c f = (xs, rest)" "nat c \<le> length xs"
  shows "nat c * itemsize \<le> length f \<and> length rest + nat c * itemsize = length f"
proof -
  let ?avail = "length f div itemsize"
  have xs: "length xs = min (nat c) ?avail"
    using assms(1,3) by (auto simp: fromfile_def Let_def chunks_length)
  with assms(4) have le: "nat c \<le> ?avail" by simp
  then have "nat c * itemsize \<le> ?avail * itemsize"
    by simp
  also have "\<dots> \<le> length f"
    by simp
  finally have bound: "nat c * itemsize \<le> length f" .
  have "min (nat c) ?avail = nat c" using le by simp
  then have "rest = drop (nat c * itemsize) f"
    using assms(1,3) by (auto simp: fromfile_def Let_def)
  with bound show ?thesis by simp
qed

lemma getitem_Inr_iff: "getitem a i = Inr v \<longleftrightarrow> i < length a \<and> v = a ! i"
  by (auto simp: getitem_def)

lemma getitem_Inl: "getitem a i = Inl e \<Longrightarrow> e = IndexError i (length a)"
  by (auto simp: getitem_def split: if_splits)

lemma make_row_Inr:
  assumes "make_row float64 t x y z ex ey ez p = Inr r"
  shows "p < length x \<and> p < length y \<and> p < length z
       \<and> p < length ex \<and> p < length ey \<and> p < length ez"
  using assms unfolding make_row_def bind_Inr_iff getitem_Inr_iff by blast

lemma make_row_time:
  "make_row float64 t x y z ex ey ez p = Inr r \<Longrightarrow> time r = t \<and> Particles r = int p"
  unfolding make_row_def bind_Inr_iff by auto

lemma make_row_Inl:
  "make_row float64 t x y z ex ey ez p = Inl e \<Longrightarrow> \<exists>i s. e = IndexError i s"
  unfolding make_row_def bind_Inl_iff by (auto dest: getitem_Inl)

lemma append_rows_Inr:
  "append_rows mk ids data = Inr r \<Longrightarrow> p \<in> set ids \<Longrightarrow> \<exists>row. mk p = Inr row"
proof (induction ids arbitrary: data)
  case Nil
  then show ?case by simp
next
  case (Cons q ids)
  from Cons.prems(1) obtain row where q: "mk q = Inr row"
    and rest: "append_rows mk ids (data @ [row]) = Inr r"
    by (auto simp: bind_Inr_iff)
  show ?case
  proof (cases "p = q")
    case True
    with q show ?thesis by blast
  next
    case False
    with Cons.prems(2) have "p \<in> set ids" by simp
    with Cons.IH [OF rest] show ?thesis .
  qed
qed

lemma append_rows_result:
  "append_rows mk ids data = Inr r \<Longrightarrow>
     \<exists>new. r = data @ new \<and> length new = length ids
        \<and> (\<forall>j < length ids. mk (ids ! j) = Inr (new ! j))"
proof (induction ids arbitrary: data)
  case Nil
  then show ?case by simp
next
  case (Cons q ids)
  from Cons.prems obtain row where q: "mk q = Inr row"
    and rest: "append_rows mk ids (data @ [row]) = Inr r"
    by (auto simp: bind_Inr_iff)
  from Cons.IH [OF rest] obtain new where new: "r = (data @ [row]) @ new"
    "length new = length ids" "\<forall>j < length ids. mk (ids ! j) = Inr (new ! j)"
    by blast
  have "\<forall>j < length (q # ids). mk ((q # ids) ! j) = Inr ((row # new) ! j)"
    using q new(3) by (auto simp: nth_Cons split: nat.splits)
  with new(1,2) show ?case
    by (intro exI [of _ "row # new"]) simp
qed

lemma append_rows_Inl:
  "append_rows (make_row float64 t x y z ex ey ez) ids data = Inl e
     \<Longrightarrow> \<exists>i s. e = IndexError i s"
proof (induction ids arbitrary: data)
  case Nil
  then show ?case by simp
next
  case (Cons q ids)
  from Cons.prems consider "make_row float64 t x y z ex ey ez q = Inl e"
    | row where "append_rows (make_row float64 t x y z ex ey ez) ids (data @ [row]) = Inl e"
    by (auto simp: bind_Inl_iff)
  then show ?case
  proof cases
    case 1
    then show ?thesis by (rule make_row_Inl)
  next
    case 2
    then show ?thesis by (rule Cons.IH)
  qed
qed

text \<open>One pass of the frame loop, as a relation between the file before and after.\<close>

lemma read_frames_Suc_Inr:
  assumes ok: "read_frames float64 (Suc k) n f data = Inr r" and n: "0 \<le> n"
  shows "\<exists>f7 data'. read_frames float64 k n f7 data' = Inr r
           \<and> length f7 + (4 + 48 * nat n) = length f
           \<and> length data' = length data + nat n"
proof -
  obtain t f1 where t: "fromfile 4 1 f = (t, f1)" by (cases "fromfile 4 1 f")
  obtain x f2 where x: "fromfile 8 n f1 = (x, f2)" by (cases "fromfile 8 n f1")
  obtain y f3 where y: "fromfile 8 n f2 = (y, f3)" by (cases "fromfile 8 n f2")
  obtain z f4 where z: "fromfile 8 n f3 = (z, f4)" by (cases "fromfile 8 n f3")
  obtain ex f5 where ex: "fromfile 8 n f4 = (ex, f5)" by (cases "fromfile 8 n f4")
  obtain ey f6 where ey: "fromfile 8 n f5 = (ey, f6)" by (cases "fromfile 8 n f5")
  obtain ez f7 where ez: "fromfile 8 n f6 = (ez, f7)" by (cases "fromfile 8 n f6")
  from ok obtain tb data' where tb: "getitem t 0 = Inr tb"
    and rows: "append_rows (make_row float64 (int32_of tb) x y z ex ey ez) [0..<nat n] data
                 = Inr data'"
    and rest: "read_frames float64 k n f7 data' = Inr r"
    by (auto simp: t x y z ex ey ez bind_Inr_iff)
  from tb have "nat 1 \<le> length t" by (cases t) (simp_all add: getitem_Inr_iff)
  from fromfile_full [OF _ _ t this] have l1: "length f1 + 4 = length f" by simp
  have lens: "nat n \<le> length x \<and> nat n \<le> length y \<and> nat n \<le> length z
      \<and> nat n \<le> length ex \<and> nat n \<le> length ey \<and> nat n \<le> length ez"
  proof (cases "nat n")
    case 0
    then show ?thesis by simp
  next
    case (Suc j)
    then have "j \<in> set [0..<nat n]" by simp
    from append_rows_Inr [OF rows this] obtain row
      where "make_row float64 (int32_of tb) x y z ex ey ez j = Inr row" by blast
    from make_row_Inr [OF this] Suc show ?thesis by simp
  qed
  have l2: "length f2 + nat n * 8 = length f1"
    using fromfile_full [OF n _ x] lens by simp
  have l3: "length f3 + nat n * 8 = length f2"
    using fromfile_full [OF n _ y] lens by simp
  have l4: "length f4 + nat n * 8 = length f3"
    using fromfile_full [OF n _ z] lens by simp
  have l5: "length f5 + nat n * 8 = length f4"
    using fromfile_full [OF n _ ex] lens by simp
  have l6: "length f6 + nat n * 8 = length f5"
    using fromfile_full [OF n _ ey] lens by simp
  have l7: "length f7 + nat n * 8 = length f6"
    using fromfile_full [OF n _ ez] lens by simp
  have total: "length f7 + (4 + 48 * nat n) = length f"
    using l1 l2 l3 l4 l5 l6 l7 by linarith
  from append_rows_result [OF rows] have "length data' = length data + nat n"
    by auto
  with rest total show ?thesis by blast
qed

lemma read_frames_Inr_length:
  "read_frames float64 k n f data = Inr r \<Longrightarrow> 0 \<le> n \<Longrightarrow>
     k * (4 + 48 * nat n) \<le> length f \<and> length r = length data + k * nat n"
proof (induction k arbitrary: f data)
  case 0
  then show ?case by simp
next
  case (Suc k)
  from read_frames_Suc_Inr [OF Suc.prems] obtain f7 data'
    where rest: "read_frames float64 k n f7 data' = Inr r"
      and len: "length f7 + (4 + 48 * nat n) = length f"
      and data': "length data' = length data + nat n"
    by blast
  from Suc.IH [OF rest Suc.prems(2)]
  have "k * (4 + 48 * nat n) \<le> length f7" "length r = length data' + k * nat n"
    by simp_all
  with len data' show ?case by simp
qed

lemma read_frames_Inl:
  "read_frames float64 k n f data = Inl e \<Longrightarrow> \<exists>i s. e = IndexError i s"
proof (induction k arbitrary: f data)
  case 0
  then show ?case by simp
next
  case (Suc k)
  obtain t f1 where t: "fromfile 4 1 f = (t, f1)" by (cases "fromfile 4 1 f")
  obtain x f2 where x: "fromfile 8 n f1 = (x, f2)" by (cases "fromfile 8 n f1")
  obtain y f3 where y: "fromfile 8 n f2 = (y, f3)" by (cases "fromfile 8 n f2")
  obtain z f4 where z: "fromfile 8 n f3 = (z, f4)" by (cases "fromfile 8 n f3")
  obtain ex f5 where ex: "fromfile 8 n f4 = (ex, f5)" by (cases "fromfile 8 n f4")
  obtain ey f6 where ey: "fromfile 8 n f5 = (ey, f6)" by (cases "fromfile 8 n f5")
  obtain ez f7 where ez: "fromfile 8 n f6 = (ez, f7)" by (cases "fromfile 8 n f6")
  from Suc.prems consider "getitem t 0 = Inl e"
    | tb where "append_rows (make_row float64 (int32_of tb) x y z ex ey ez) [0..<nat n] data
                  = Inl e"
    | data' where "read_frames float64 k n f7 data' = Inl e"
    by (auto simp: t x y z ex ey ez bind_Inl_iff)
  then show ?case
  proof cases
    case 1
    then show ?thesis by (auto dest: getitem_Inl)
  next
    case 2
    then show ?thesis by (rule append_rows_Inl)
  next
    case 3
    then show ?thesis by (rule Suc.IH)
  qed
qed

lemma decode_binary_Inl:
  assumes "decode_binary float64 f = Inl e"
  shows "\<exists>i s. e = IndexError i s"
proof -
  obtain h1 f1 where h1: "fromfile 4 1 f = (h1, f1)" by (cases "fromfile 4 1 f")
  obtain h2 f2 where h2: "fromfile 4 1 f1 = (h2, f2)" by (cases "fromfile 4 1 f1")
  from assms consider "getitem h1 0 = Inl e" | "getitem h2 0 = Inl e"
    | k n where "read_frames float64 k n f2 [] = Inl e"
    unfolding decode_binary_def h1 h2 by (auto simp: bind_Inl_iff h2)
  then show ?thesis
    by cases (auto dest: getitem_Inl read_frames_Inl)
qed

lemma fromfile_header:
  assumes "4 \<le> length f"
  shows "fromfile 4 1 f = ([take 4 f], drop 4 f)"
proof -
  have "Suc 0 \<le> length f div 4" using assms by arith
  then have m: "min (Suc 0) (length f div 4) = Suc 0" by (rule min_absorb1)
  show ?thesis
    unfolding fromfile_def Let_def by (simp add: m)
qed

lemma decode_binary_header:
  assumes "8 \<le> length f"
  shows "decode_binary float64 f =
     bind (read_frames float64 (nat (int32_of (take 4 (drop 4 f))))
             (int32_of (take 4 f)) (drop 8 f) [])
       (\<lambda>data. Inr (DataFrame data))"
proof -
  have a: "fromfile 4 1 f = ([take 4 f], drop 4 f)"
    using assms by (intro fromfile_header) simp
  have b: "fromfile 4 1 (drop 4 f) = ([take 4 (drop 4 f)], drop 4 (drop 4 f))"
    using assms by (intro fromfile_header) simp
  show ?thesis
    by (simp add: decode_binary_def a b getitem_def bind_def)
qed

lemma read_frames_numeral:
  "read_frames float64 (numeral k) num_particles f data =
     (let (t, f1) = fromfile 4 1 f in
      bind (getitem t 0) (\<lambda>tb.
        let timestep = int32_of tb;
            (x, f2) = fromfile 8 num_particles f1;
            (y, f3) = fromfile 8 num_particles f2;
            (z, f4) = fromfile 8 num_particles f3;
            (ex, f5) = fromfile 8 num_particles f4;
            (ey, f6) = fromfile 8 num_particles f5;
            (ez, f7) = fromfile 8 num_particles f6
        in bind (append_rows (make_row float64 timestep x y z ex ey ez)
                   [0..<nat num_particles] data)
             (\<lambda>data'. read_frames float64 (pred_numeral k) num_particles f7 data')))"
  by (simp add: numeral_eq_Suc)

lemmas decode_eval =
  read_binary_simulation_def decode_binary_def fromfile_def getitem_def bind_def int32_of_def
  le_nat_def make_row_def upt_conv_Cons DataFrame_def chunks_numeral read_frames_numeral

section \<open>Claim about a truncated binary file\<close>

text \<open>
  Claim C2, as stated: a binary file that ends before the declared arrays and frames
  have been read makes the reader fail with an error that identifies the array and the
  frame that were short. The reader has no check of its own: numpy returns short arrays
  silently and the failure is the \<^verbatim>\<open>IndexError\<close> of the first index that is out of
  range. The file that declares 50 particles and ends after 30 values of the first array
  of its only frame, and the file that declares two frames and ends in the second one
  after the array \<^verbatim>\<open>ex\<close>, raise the same exception, so the exception identifies
  neither the array nor the frame.
\<close>

theorem read_binary_truncated_counterexample:
  "read_binary_simulation float64_bits ''data/simulation.bin''
     \<lparr>bin_file = Some ([50, 0, 0, 0, 1, 0, 0, 0] @ [7, 0, 0, 0] @ replicate 240 0),
      csv_file = None\<rparr>
     = Inl (IndexError 0 0)
   \<and> read_binary_simulation float64_bits ''data/simulation.bin''
     \<lparr>bin_file = Some ([50, 0, 0, 0, 2, 0, 0, 0] @ ([7, 0, 0, 0] @ replicate 2400 0)
                          @ ([8, 0, 0, 0] @ replicate 1600 0)),
      csv_file = None\<rparr>
     = Inl (IndexError 0 0)"
  by (simp add: decode_eval)

text \<open>
  Claim C2, amended: for every binary file that declares \<open>n \<ge> 0\<close> particles and \<open>m\<close>
  frames and has fewer than \<open>8 + m * (4 + 48 * n)\<close> bytes, \<^verbatim>\<open>read_binary_simulation\<close>
  raises numpy's \<^verbatim>\<open>IndexError\<close>, which carries an index and an array size only, and
  returns no table.
\<close>

theorem read_binary_truncated_raises:
  assumes "8 \<le> length f"
    and "0 \<le> int32_of (take 4 f)"
    and "length f < 8 + nat (int32_of (take 4 (drop 4 f))) * (4 + 48 * nat (int32_of (take 4 f)))"
  shows "\<exists>i s. read_binary_simulation float64 filename \<lparr>bin_file = Some f, csv_file = c\<rparr>
           = Inl (IndexError i s)"
proof -
  let ?n = "int32_of (take 4 f)" and ?m = "nat (int32_of (take 4 (drop 4 f)))"
  have dec: "decode_binary float64 f =
      bind (read_frames float64 ?m ?n (drop 8 f) []) (\<lambda>data. Inr (DataFrame data))"
    by (rule decode_binary_header [OF assms(1)])
  have "\<not> (\<exists>r. read_frames float64 ?m ?n (drop 8 f) [] = Inr r)"
  proof
    assume "\<exists>r. read_frames float64 ?m ?n (drop 8 f) [] = Inr r"
    then obtain r where "read_frames float64 ?m ?n (drop 8 f) [] = Inr r" ..
    from read_frames_Inr_length [OF this assms(2)]
    have "?m * (4 + 48 * nat ?n) \<le> length (drop 8 f)" by simp
    with assms(1,3) show False by simp
  qed
  then obtain e where "read_frames float64 ?m ?n (drop 8 f) [] = Inl e"
    by (cases "read_frames float64 ?m ?n (drop 8 f) []") auto
  then have e: "decode_binary float64 f = Inl e"
    by (simp add: dec bind_def)
  from decode_binary_Inl [OF e] obtain i s where "e = IndexError i s" by blast
  with e show ?thesis
    by (simp add: read_binary_simulation_def)
qed

theorem read_binary_truncated_raises_witness:
  "8 \<le> length ([50, 0, 0, 0, 1, 0, 0, 0] @ [7, 0, 0, 0] @ replicate 240 (0::nat))
   \<and> int32_of (take 4 ([50, 0, 0, 0, 1, 0, 0, 0] @ [7, 0, 0, 0] @ replicate 240 0)) = 50
   \<and> int32_of (take 4 (drop 4 ([50, 0, 0, 0, 1, 0, 0, 0] @ [7, 0, 0, 0] @ replicate 240 0))) = 1
   \<and> (\<exists>i s. read_binary_simulation float64_bits ''data/simulation.bin''
         \<lparr>bin_file = Some ([50, 0, 0, 0, 1, 0, 0, 0] @ [7, 0, 0, 0] @ replicate 240 0),
          csv_file = None\<rparr>
         = Inl (IndexError i s))"
proof -
  let ?f = "[50, 0, 0, 0, 1, 0, 0, 0] @ [7, 0, 0, 0] @ replicate 240 (0::nat)"
  have a: "8 \<le> length ?f" by simp
  have n: "int32_of (take 4 ?f) = 50" by (simp add: int32_of_def le_nat_def)
  have m: "int32_of (take 4 (drop 4 ?f)) = 1" by (simp add: int32_of_def le_nat_def)
  have b: "0 \<le> int32_of (take 4 ?f)" unfolding n by simp
  have c: "length ?f < 8 + nat (int32_of (take 4 (drop 4 ?f)))
             * (4 + 48 * nat (int32_of (take 4 ?f)))"
    unfolding n m by simp
  from read_binary_truncated_raises [OF a b c] a n m show ?thesis by blast
qed

section \<open>Facts about timesteps and frame names\<close>

lemma unique_set: "set (unique vs) = set vs"
  by (induction vs rule: unique.induct) auto

lemma unique_distinct: "distinct (unique vs)"
  by (induction vs rule: unique.induct) (auto simp: unique_set)

lemma sort_unique: "sort (unique vs) = sorted_list_of_set (set vs)"
proof (rule sorted_distinct_set_unique)
  show "sorted (sort (unique vs))" by simp
  show "distinct (sort (unique vs))" by (simp add: unique_distinct)
  show "sorted (sorted_list_of_set (set vs))" by simp
  show "distinct (sorted_list_of_set (set vs))" by simp
  show "set (sort (unique vs)) = set (sorted_list_of_set (set vs))"
    by (simp add: unique_set)
qed

lemma column_present: "name \<in> set (columns df) \<Longrightarrow> column df name field = Inr (map field (rows df))"
  by (simp add: column_def)

lemma timesteps_of_present:
  "''time'' \<in> set (columns df) \<Longrightarrow>
     timesteps_of df = Inr (sorted_list_of_set (set (map time (rows df))))"
  by (simp add: timesteps_of_def column_present bind_def sort_unique)

lemma digit_value_digit_char: "d < 10 \<Longrightarrow> digit_value (digit_char d) = int d"
proof -
  assume "d < 10"
  then have "d = 0 \<or> d = 1 \<or> d = 2 \<or> d = 3 \<or> d = 4
    \<or> d = 5 \<or> d = 6 \<or> d = 7 \<or> d = 8 \<or> d = 9"
    by arith
  then show ?thesis
    by (elim disjE) (simp_all add: digit_value_def digit_char_def)
qed

lemma int_of_digits_snoc:
  "int_of_digits (s @ [c]) = 10 * int_of_digits s + digit_value c"
  by (simp add: int_of_digits_def)

lemma int_of_digits_str_nat: "int_of_digits (str_nat n) = int n"
proof (induction n rule: less_induct)
  case (less n)
  show ?case
  proof (cases "n < 10")
    case True
    then have "str_nat n = [digit_char n]" by (subst str_nat.simps) simp
    with True show ?thesis
      by (simp add: int_of_digits_def digit_value_digit_char)
  next
    case False
    then have s: "str_nat n = str_nat (n div 10) @ [digit_char (n mod 10)]"
      by (subst str_nat.simps) simp
    have "n div 10 < n" using False by simp
    from less.IH [OF this]
    have "int_of_digits (str_nat n) = 10 * int (n div 10) + int (n mod 10)"
      by (simp add: s int_of_digits_snoc digit_value_digit_char)
    also have "\<dots> = int n" by (simp add: zdiv_int zmod_int)
    finally show ?thesis .
  qed
qed

lemma int_of_digits_zeros:
  "int_of_digits (replicate k (CHR ''0'') @ s) = int_of_digits s"
proof -
  have "foldl (\<lambda>a c. 10 * a + digit_value c) 0 (replicate k (CHR ''0'')) = 0"
    by (induction k) (simp_all add: digit_value_def)
  then show ?thesis by (simp add: int_of_digits_def)
qed

lemma frame_name_inj: "frame_name i = frame_name j \<Longrightarrow> i = j"
proof -
  assume "frame_name i = frame_name j"
  then have "format_04d i = format_04d j" by (simp add: frame_name_def)
  then have "int_of_digits (format_04d i) = int_of_digits (format_04d j)" by simp
  then show "i = j"
    by (simp add: format_04d_def int_of_digits_zeros int_of_digits_str_nat)
qed

section \<open>Facts about the frame loop\<close>

lemma render_frames_ok:
  assumes "\<And>t. t \<in> snd ` set xs \<Longrightarrow> render t = Inr (img t)" and "dirs w d = Some files"
  shows "render_frames render d xs w =
    (w\<lparr>dirs := (dirs w)(d \<mapsto>
        files ++ map_of (rev (map (\<lambda>p. (frame_name (fst p), img (snd p))) xs)))\<rparr>,
     Inr ())"
  using assms
proof (induction xs arbitrary: w files)
  case Nil
  then have "(dirs w)(d \<mapsto> files) = dirs w" by (simp add: map_upd_triv)
  then show ?case by simp
next
  case (Cons p xs)
  obtain idx t where p: "p = (idx, t)" by (cases p)
  have r: "render t = Inr (img t)" using Cons.prems(1) [of t] p by simp
  let ?w1 = "w\<lparr>dirs := (dirs w)(d \<mapsto> files(frame_name idx \<mapsto> img t))\<rparr>"
  let ?ys = "rev (map (\<lambda>p. (frame_name (fst p), img (snd p))) xs)"
  have wr: "write_image d (frame_name idx) (img t) w = Inr ?w1"
    using Cons.prems(2) by (simp add: write_image_def)
  have d1: "dirs ?w1 d = Some (files(frame_name idx \<mapsto> img t))" by simp
  have r1: "\<And>t. t \<in> snd ` set xs \<Longrightarrow> render t = Inr (img t)"
    using Cons.prems(1) by simp
  let ?Y = "files(frame_name idx \<mapsto> img t) ++ map_of ?ys"
  have ih: "render_frames render d xs ?w1 = (?w1\<lparr>dirs := (dirs ?w1)(d \<mapsto> ?Y)\<rparr>, Inr ())"
    by (rule Cons.IH [OF r1 d1])
  have lhs: "render_frames render d (p # xs) w = render_frames render d xs ?w1"
    by (simp add: p r wr)
  have rhs: "files ++ map_of (rev (map (\<lambda>p. (frame_name (fst p), img (snd p))) (p # xs))) = ?Y"
    by (simp add: p)
  have e1: "(dirs ?w1)(d \<mapsto> ?Y) = (dirs w)(d \<mapsto> ?Y)"
    by simp
  have e2: "?w1\<lparr>dirs := Z\<rparr> = w\<lparr>dirs := Z\<rparr>" for Z
    by simp
  show ?case
    by (simp only: lhs ih rhs e1 e2)
qed

lemma frames_lookup:
  assumes "i < length ts"
  shows "(files ++ map_of (rev (map (\<lambda>p. (frame_name (fst p), img (snd p))) (enumerate 0 ts))))
           (frame_name i) = Some (img (ts ! i))"
proof -
  let ?ys = "map (\<lambda>p. (frame_name (fst p), img (snd p))) (enumerate 0 ts)"
  have "map fst ?ys = map frame_name (map fst (enumerate 0 ts))"
    by (simp only: map_map comp_def fst_conv)
  then have "map fst ?ys = map frame_name [0..<length ts]"
    by simp
  moreover have "distinct (map frame_name [0..<length ts])"
    by (simp add: distinct_map inj_on_def frame_name_inj)
  ultimately have d: "distinct (map fst (rev ?ys))"
    by (simp add: rev_map [symmetric])
  have "(i, ts ! i) \<in> set (enumerate 0 ts)"
    using assms by (simp add: in_set_enumerate_eq)
  then have "(frame_name i, img (ts ! i)) \<in> set (rev ?ys)"
    by force
  from map_of_is_SomeI [OF d this] show ?thesis
    by simp
qed

lemma frames_other:
  assumes "\<And>i. i < length ts \<Longrightarrow> name \<noteq> frame_name i"
  shows "(files ++ map_of (rev (map (\<lambda>p. (frame_name (fst p), img (snd p))) (enumerate 0 ts))))
           name = files name"
proof -
  let ?ys = "map (\<lambda>p. (frame_name (fst p), img (snd p))) (enumerate 0 ts)"
  have "name \<notin> fst ` set (rev ?ys)"
  proof
    assume "name \<in> fst ` set (rev ?ys)"
    then obtain i where "i < length ts" "name = frame_name i"
      by (auto simp: in_set_enumerate_eq)
    with assms show False by blast
  qed
  then have "map_of (rev ?ys) name = None"
    by (rule map_of_eq_None_iff [THEN iffD2])
  then show ?thesis
    by (simp add: map_add_def)
qed

lemma points_of_present:
  assumes "{''x-position'', ''y-position'', ''z-position''} \<subseteq> set (columns df)"
  shows "points_of (select_rows df P) =
     Inr (map (\<lambda>r. (x_position r, y_position r, z_position r)) (filter P (rows df)))"
proof -
  have "zip (map x_position rs) (zip (map y_position rs) (map z_position rs))
      = map (\<lambda>r. (x_position r, y_position r, z_position r)) rs" for rs :: "(int, real) row list"
    by (induction rs) simp_all
  then show ?thesis
    using assms by (simp add: points_of_def select_rows_def column_def bind_def)
qed

lemma render_standard_frame_present:
  assumes "{''time'', ''x-position'', ''y-position'', ''z-position''} \<subseteq> set (columns df)"
  shows "render_standard_frame df t g =
     Inr (StandardFrame (''Active Brownian Particles - Frame '' @ str_int t) g
            (map (\<lambda>r. (x_position r, y_position r, z_position r))
               (filter (\<lambda>r. time r = t) (rows df))))"
  using assms by (simp add: render_standard_frame_def column_def bind_def points_of_present)

lemma named_frames_enumerate:
  "named_frames df (enumerate k ts) =
     map (\<lambda>i. (''frame'' @ str_nat (k + i), ts ! i, filter (\<lambda>r. time r = ts ! i) (rows df)))
       [0..<length ts]"
proof (induction ts arbitrary: k)
  case Nil
  then show ?case by simp
next
  case (Cons t ts)
  have "[0..<Suc (length ts)] = 0 # [Suc 0..<Suc (length ts)]"
    by (rule upt_conv_Cons) simp
  also have "[Suc 0..<Suc (length ts)] = map Suc [0..<length ts]"
    by (rule map_Suc_upt [symmetric])
  finally have "[0..<length (t # ts)] = 0 # map Suc [0..<length ts]"
    by simp
  then show ?case
    by (simp add: Cons.IH comp_def del: upt_Suc)
qed

section \<open>Claim about the order and the names of the frames\<close>

text \<open>
  Claim C1. For every table that has the columns the standard view reads, the timesteps
  rendered are the distinct values of the column \<^verbatim>\<open>time\<close> in ascending order, and one
  frame is written for each of them: the frame of the \<open>i\<close>-th smallest timestep is the
  file \<^verbatim>\<open>frame_{i:04d}.png\<close> of the temporary directory, different positions have
  different file names, and no other file of the directory is touched. The encoder is run
  on exactly this state. \<^verbatim>\<open>create_standard_visualization\<close> names its frames
  \<^verbatim>\<open>frame{i}\<close> in the same order. The table itself is an argument that is only read.
\<close>

theorem frame_sequencer_sorted_dense:
  assumes cols: "{''time'', ''x-position'', ''y-position'', ''z-position''} \<subseteq> set (columns df)"
  shows "\<exists>ts w' files.
       timesteps_of df = Inr ts
     \<and> sorted ts \<and> distinct ts \<and> set ts = set (map time (rows df))
     \<and> render_frames (\<lambda>t. render_standard_frame df t g)
          (base @ TEMP_FRAMES_DIR @ ''/standard'') (enumerate 0 ts)
          (mkdir (base @ TEMP_FRAMES_DIR @ ''/standard'') w) = (w', Inr ())
     \<and> generate_standard_mp4 base env df g w =
          assemble env (base @ TEMP_FRAMES_DIR @ ''/standard'')
            (base @ OUTPUT_DIR @ ''/particles_standard.mp4'') w'
     \<and> dirs w' (base @ TEMP_FRAMES_DIR @ ''/standard'') = Some files
     \<and> (\<forall>i < length ts.
          files (frame_name i) =
            Some (StandardFrame (''Active Brownian Particles - Frame '' @ str_int (ts ! i)) g
                    (map (\<lambda>r. (x_position r, y_position r, z_position r))
                       (filter (\<lambda>r. time r = ts ! i) (rows df)))))
     \<and> (\<forall>name. (\<forall>i < length ts. name \<noteq> frame_name i) \<longrightarrow>
          files name =
            (case dirs w (base @ TEMP_FRAMES_DIR @ ''/standard'') of
               None \<Rightarrow> None
             | Some old \<Rightarrow> old name))
     \<and> (\<forall>i j. frame_name i = frame_name j \<longrightarrow> i = j)
     \<and> (rows df \<noteq> [] \<longrightarrow>
          create_standard_visualization df =
            Inr (map (\<lambda>i. (''frame'' @ str_nat i, ts ! i,
                           filter (\<lambda>r. time r = ts ! i) (rows df)))
                   [0..<length ts]))"
proof -
  let ?d = "base @ TEMP_FRAMES_DIR @ ''/standard''"
  let ?ts = "sorted_list_of_set (set (map time (rows df)))"
  let ?img = "\<lambda>t. StandardFrame (''Active Brownian Particles - Frame '' @ str_int t) g
                 (map (\<lambda>r. (x_position r, y_position r, z_position r))
                    (filter (\<lambda>r. time r = t) (rows df)))"
  let ?old = "case dirs w ?d of None \<Rightarrow> Map.empty | Some old \<Rightarrow> old"
  let ?files = "?old ++ map_of (rev (map (\<lambda>p. (frame_name (fst p), ?img (snd p)))
                                  (enumerate 0 ?ts)))"
  let ?w1 = "mkdir ?d w"
  let ?w' = "?w1\<lparr>dirs := (dirs ?w1)(?d \<mapsto> ?files)\<rparr>"
  have ts: "timesteps_of df = Inr ?ts"
    using cols by (intro timesteps_of_present) simp
  have d1: "dirs ?w1 ?d = Some ?old"
    by (simp add: mkdir_def)
  have render: "\<And>t. t \<in> snd ` set (enumerate 0 ?ts) \<Longrightarrow>
      render_standard_frame df t g = Inr (?img t)"
    by (rule render_standard_frame_present [OF cols])
  have loop: "render_frames (\<lambda>t. render_standard_frame df t g) ?d (enumerate 0 ?ts) ?w1
      = (?w', Inr ())"
    by (rule render_frames_ok [OF render d1])
  have gen: "generate_standard_mp4 base env df g w =
      assemble env ?d (base @ OUTPUT_DIR @ ''/particles_standard.mp4'') ?w'"
    by (simp only: generate_standard_mp4_def ts Let_def loop sum.case prod.case)
  have dir: "dirs ?w' ?d = Some ?files"
    by simp
  have written: "\<forall>i < length ?ts. ?files (frame_name i) = Some (?img (?ts ! i))"
    by (intro allI impI frames_lookup)
  have other: "\<forall>name. (\<forall>i < length ?ts. name \<noteq> frame_name i) \<longrightarrow>
      ?files name = (case dirs w ?d of None \<Rightarrow> None | Some old \<Rightarrow> old name)"
  proof (intro allI impI)
    fix name
    assume "\<forall>i < length ?ts. name \<noteq> frame_name i"
    then have "?files name = ?old name"
      by (intro frames_other) simp
    then show "?files name = (case dirs w ?d of None \<Rightarrow> None | Some old \<Rightarrow> old name)"
      by (simp split: option.splits)
  qed
  have inj: "\<forall>i j. frame_name i = frame_name j \<longrightarrow> i = j"
    using frame_name_inj by blast
  have video: "rows df \<noteq> [] \<longrightarrow>
      create_standard_visualization df =
        Inr (map (\<lambda>i. (''frame'' @ str_nat i, ?ts ! i,
                       filter (\<lambda>r. time r = ?ts ! i) (rows df)))
               [0..<length ?ts])"
  proof
    assume "rows df \<noteq> []"
    then have "set (map time (rows df)) \<noteq> {}" by simp
    then have "?ts \<noteq> []" by simp
    then have "0 < length ?ts" by (simp add: card_gt_0_iff)
    then have "getitem ?ts 0 = Inr (?ts ! 0)" by (simp add: getitem_def)
    then show "create_standard_visualization df =
        Inr (map (\<lambda>i. (''frame'' @ str_nat i, ?ts ! i,
                       filter (\<lambda>r. time r = ?ts ! i) (rows df)))
               [0..<length ?ts])"
      unfolding create_standard_visualization_def ts
      by (simp add: bind_def named_frames_enumerate)
  qed
  have props: "sorted ?ts \<and> distinct ?ts \<and> set ?ts = set (map time (rows df))"
    by simp
  show ?thesis
    using ts props loop gen dir written other inj video by blast
qed

text \<open>
  The example of the claim: three particles and two frames stored with the timesteps 5
  and 3, in this order, every coordinate being \<open>+0.0\<close>. The table keeps the order of the
  file; the frame of timestep 3 is \<^verbatim>\<open>frame_0000.png\<close>, the frame of timestep 5 is
  \<^verbatim>\<open>frame_0001.png\<close>, and there is no third frame.
\<close>

theorem frame_sequencer_sorted_dense_witness:
  "\<exists>df w' files.
       decode_binary (\<lambda>bs. 0)
         ([3, 0, 0, 0, 2, 0, 0, 0] @ ([5, 0, 0, 0] @ replicate 144 0)
            @ ([3, 0, 0, 0] @ replicate 144 0)) = Inr df
     \<and> map time (rows df) = [5, 5, 5, 3, 3, 3]
     \<and> timesteps_of df = Inr [3, 5]
     \<and> render_frames
          (\<lambda>t. render_standard_frame df t
                 \<lparr>radius = Some 1, height_min = Some 0, height_max = Some 0\<rparr>)
          ''temp_frames/standard'' (enumerate 0 [3, 5])
          (mkdir ''temp_frames/standard'' \<lparr>dirs = Map.empty, logged = []\<rparr>) = (w', Inr ())
     \<and> dirs w' ''temp_frames/standard'' = Some files
     \<and> files ''frame_0000.png'' =
          Some (StandardFrame ''Active Brownian Particles - Frame 3''
                  \<lparr>radius = Some 1, height_min = Some 0, height_max = Some 0\<rparr>
                  [(0, 0, 0), (0, 0, 0), (0, 0, 0)])
     \<and> files ''frame_0001.png'' =
          Some (StandardFrame ''Active Brownian Particles - Frame 5''
                  \<lparr>radius = Some 1, height_min = Some 0, height_max = Some 0\<rparr>
                  [(0, 0, 0), (0, 0, 0), (0, 0, 0)])
     \<and> files ''frame_0002.png'' = None"
proof -
  let ?f = "[3, 0, 0, 0, 2, 0, 0, 0] @ ([5, 0, 0, 0] @ replicate 144 0)
              @ ([3, 0, 0, 0] @ replicate 144 (0::nat))"
  let ?g = "\<lparr>radius = Some 1, height_min = Some 0, height_max = Some 0\<rparr>"
  let ?w = "\<lparr>dirs = Map.empty, logged = []\<rparr>"
  let ?d = "''temp_frames/standard''"
  let ?pt = "\<lambda>r::(int, real) row. (x_position r, y_position r, z_position r)"
  obtain df where df: "decode_binary (\<lambda>bs. 0::real) ?f = Inr df"
    and tm: "map time (rows df) = [5, 5, 5, 3, 3, 3]"
    and cl: "columns df = row_keys"
    and pts: "map (\<lambda>r. (time r, ?pt r)) (rows df)
               = [(5, 0, 0, 0), (5, 0, 0, 0), (5, 0, 0, 0), (3, 0, 0, 0), (3, 0, 0, 0), (3, 0, 0, 0)]"
    by (simp add: decode_eval)
  have sel: "map ?pt (filter (\<lambda>r. time r = t) rs)
      = map snd (filter (\<lambda>q. fst q = t) (map (\<lambda>r. (time r, ?pt r)) rs))" for t rs
    by (induction rs) simp_all
  have cols: "{''time'', ''x-position'', ''y-position'', ''z-position''} \<subseteq> set (columns df)"
    by (simp add: cl row_keys_def)
  have d: "[] @ TEMP_FRAMES_DIR @ ''/standard'' = ?d"
    by (simp add: TEMP_FRAMES_DIR_def)
  from frame_sequencer_sorted_dense [OF cols, of ?g "[]" ?w]
  obtain ts w' files where ts: "timesteps_of df = Inr ts"
    and loop: "render_frames (\<lambda>t. render_standard_frame df t ?g) ?d (enumerate 0 ts)
        (mkdir ?d ?w) = (w', Inr ())"
    and dir: "dirs w' ?d = Some files"
    and written: "\<forall>i < length ts.
        files (frame_name i) =
          Some (StandardFrame (''Active Brownian Particles - Frame '' @ str_int (ts ! i)) ?g
                  (map ?pt (filter (\<lambda>r. time r = ts ! i) (rows df))))"
    and other: "\<forall>name. (\<forall>i < length ts. name \<noteq> frame_name i) \<longrightarrow>
        files name = (case dirs ?w ?d of None \<Rightarrow> None | Some old \<Rightarrow> old name)"
    unfolding d by blast
  have ts35': "timesteps_of df = Inr [3, 5]"
    by (simp add: timesteps_of_def column_def cl row_keys_def bind_def tm)
  with ts have ts35: "ts = [3, 5]" by simp
  have n0: "frame_name 0 = ''frame_0000.png''" and n1: "frame_name (Suc 0) = ''frame_0001.png''"
    by (simp_all add: frame_name_def format_04d_def str_nat.simps digit_char_def numeral_3_eq_3)
  have s3: "str_int 3 = ''3''" and s5: "str_int 5 = ''5''"
    by (simp_all add: str_int_def str_nat.simps digit_char_def)
  have f0: "files ''frame_0000.png'' =
      Some (StandardFrame ''Active Brownian Particles - Frame 3'' ?g [(0, 0, 0), (0, 0, 0), (0, 0, 0)])"
    using written [rule_format, of 0] by (simp add: ts35 n0 s3 sel pts)
  have f1: "files ''frame_0001.png'' =
      Some (StandardFrame ''Active Brownian Particles - Frame 5'' ?g [(0, 0, 0), (0, 0, 0), (0, 0, 0)])"
    using written [rule_format, of "Suc 0"] by (simp add: ts35 n1 s5 sel pts)
  have "\<forall>i < length ts. ''frame_0002.png'' \<noteq> frame_name i"
    by (auto simp: ts35 less_Suc_eq n0 n1)
  with other have f2: "files ''frame_0002.png'' = None"
    by simp
  note loop' = loop [unfolded ts35]
  show ?thesis
    by (rule exI [of _ df], rule exI [of _ w'], rule exI [of _ files])
       (simp only: df tm ts35' loop' dir f0 f1 f2 simp_thms)
qed

section \<open>Facts about the selection\<close>

lemma permutation_facts:
  assumes "sort p = [0..<n]"
  shows "length p = n" and "distinct p" and "set p = {0..<n}"
proof -
  have "length (sort p) = n" unfolding assms by simp
  then show "length p = n" by simp
  have "distinct (sort p)" unfolding assms by simp
  then show "distinct p" by simp
  have "set (sort p) = {0..<n}" unfolding assms by simp
  then show "set p = {0..<n}" by simp
qed

lemma sort_permutation: "distinct p \<Longrightarrow> set p = {0..<n} \<Longrightarrow> sort p = [0..<n]"
  by (rule sorted_distinct_set_unique) simp_all

lemma num_tracked_of_bounds:
  assumes "0 < n" "0 < fraction" "fraction \<le> 1"
  shows "1 \<le> num_tracked_of fraction n" and "num_tracked_of fraction n \<le> n"
proof -
  show "1 \<le> num_tracked_of fraction n"
    by (simp add: num_tracked_of_def)
  have "real n * fraction \<le> real n * 1"
    using assms by (intro mult_left_mono) simp_all
  then have "\<lfloor>real n * fraction\<rfloor> \<le> int n"
    by (simp add: floor_le_iff)
  then have "nat \<lfloor>real n * fraction\<rfloor> \<le> n"
    by simp
  with assms(1) show "num_tracked_of fraction n \<le> n"
    by (simp add: num_tracked_of_def)
qed

lemma random_choice_ok:
  assumes perm: "sort (permutation (length a)) = [0..<length a]"
    and k: "k \<le> length a" and a: "a \<noteq> []"
  shows "random_choice permutation a k =
           Inr (map (\<lambda>i. a ! i) (take k (permutation (length a))))"
    and "length (map (\<lambda>i. a ! i) (take k (permutation (length a)))) = k"
    and "set (map (\<lambda>i. a ! i) (take k (permutation (length a)))) \<subseteq> set a"
    and "distinct a \<Longrightarrow> distinct (map (\<lambda>i. a ! i) (take k (permutation (length a))))"
proof -
  let ?p = "permutation (length a)"
  note pf = permutation_facts [OF perm]
  show "random_choice permutation a k = Inr (map (\<lambda>i. a ! i) (take k ?p))"
    using k a by (simp add: random_choice_def)
  show "length (map (\<lambda>i. a ! i) (take k ?p)) = k"
    using k pf(1) by simp
  have idx: "set (take k ?p) \<subseteq> {0..<length a}"
    using set_take_subset [of k ?p] pf(3) by simp
  then show "set (map (\<lambda>i. a ! i) (take k ?p)) \<subseteq> set a"
    by auto
  assume da: "distinct a"
  have "inj_on (\<lambda>i. a ! i) (set (take k ?p))"
  proof (rule inj_onI)
    fix i j
    assume "i \<in> set (take k ?p)" "j \<in> set (take k ?p)" "a ! i = a ! j"
    with idx have "i < length a" "j < length a" by auto
    with da \<open>a ! i = a ! j\<close> show "i = j"
      by (simp add: nth_eq_iff_index_eq)
  qed
  moreover have "distinct (take k ?p)"
    using pf(2) by (rule distinct_take)
  ultimately show "distinct (map (\<lambda>i. a ! i) (take k ?p))"
    by (simp add: distinct_map)
qed

lemma dict_snoc: "dict (ps @ [(k, v)]) = (dict ps)(k \<mapsto> v)"
  by (simp add: dict_def)

lemma dict_map_of: "dict ps = map_of (rev ps)"
proof (induction ps rule: rev_induct)
  case Nil
  show ?case by (simp add: dict_def)
next
  case (snoc p ps)
  obtain k v where p: "p = (k, v)" by (cases p)
  show ?case
    by (simp add: p dict_snoc snoc.IH)
qed

lemma particle_colors_nth:
  assumes "distinct tracked" "length tracked = k" "i < k"
  shows "particle_colors tracked k (tracked ! i) = Some (hsl_color (hue i k))"
proof -
  let ?ps = "zip tracked (colors k)"
  have len: "length tracked = length (colors k)"
    using assms(2) by (simp add: colors_length)
  have "map fst ?ps = tracked"
    using len by simp
  then have d: "distinct (map fst (rev ?ps))"
    using assms(1) by (simp add: rev_map [symmetric])
  have "(tracked ! i, colors k ! i) \<in> set ?ps"
    using assms(2,3) len by (auto simp: set_zip)
  then have "(tracked ! i, colors k ! i) \<in> set (rev ?ps)"
    by simp
  from map_of_is_SomeI [OF d this] show ?thesis
    using assms(3) by (simp add: particle_colors_def dict_map_of colors_nth)
qed

section \<open>Claims about the selection and its colours\<close>

text \<open>
  Claim C4. For every non-empty population of distinct particle identifiers and every
  fraction \<open>f\<close> with \<open>0 < f \<le> 1\<close>, whatever permutation the generator draws, the
  selection returns exactly \<open>max(1, floor(f * n))\<close> identifiers, each of them from the
  population and no two equal. With the configured fraction 0.01 a population of 10000
  gives 100, and the count is 1 whenever \<open>floor(f * n) = 0\<close>.
\<close>

theorem select_tracked_count_subset_distinct:
  assumes "distinct ids" and "ids \<noteq> []"
    and "0 < fraction" and "fraction \<le> 1"
    and "sort (permutation (length ids)) = [0..<length ids]"
  shows "\<exists>tracked colours.
       select_tracked fraction permutation ids
         = Inr (max 1 (nat \<lfloor>real (length ids) * fraction\<rfloor>), tracked, colours)
     \<and> length tracked = max 1 (nat \<lfloor>real (length ids) * fraction\<rfloor>)
     \<and> set tracked \<subseteq> set ids
     \<and> distinct tracked
     \<and> num_tracked_of TRACK_PERCENTAGE 10000 = 100
     \<and> (\<lfloor>real (length ids) * fraction\<rfloor> = 0 \<longrightarrow> length tracked = 1)"
proof -
  let ?k = "num_tracked_of fraction (length ids)"
  let ?tracked = "map (\<lambda>i. ids ! i) (take ?k (permutation (length ids)))"
  have n: "0 < length ids" using assms(2) by simp
  have k: "?k \<le> length ids"
    by (rule num_tracked_of_bounds(2) [OF n assms(3,4)])
  note rc = random_choice_ok [where permutation = permutation and a = ids, OF assms(5) k assms(2)]
  have kdef: "?k = max 1 (nat \<lfloor>real (length ids) * fraction\<rfloor>)"
    by (simp add: num_tracked_of_def)
  have sel: "select_tracked fraction permutation ids
      = Inr (?k, ?tracked, particle_colors ?tracked ?k)"
    by (simp add: select_tracked_def Let_def rc(1) bind_def)
  have hundred: "num_tracked_of TRACK_PERCENTAGE 10000 = 100"
    by (simp add: num_tracked_of_def TRACK_PERCENTAGE_def)
  have one: "\<lfloor>real (length ids) * fraction\<rfloor> = 0 \<longrightarrow> length ?tracked = 1"
    using rc(2) kdef by simp
  show ?thesis
    using sel rc(2) rc(3) rc(4) [OF assms(1)] hundred one unfolding kdef by blast
qed

text \<open>
  The example of the claim: the fraction 0.01 over the 10000 identifiers
  \<open>0, \<dots>, 9999\<close>, with a generator that draws the reversed order.
\<close>

theorem select_tracked_count_subset_distinct_witness:
  "\<exists>tracked colours.
       select_tracked TRACK_PERCENTAGE (\<lambda>n. rev [0..<n]) (map int [0..<10000])
         = Inr (100, tracked, colours)
     \<and> length tracked = 100
     \<and> set tracked \<subseteq> set (map int [0..<10000])
     \<and> distinct tracked
     \<and> \<lfloor>real (length [10, 11, 12 :: int]) * TRACK_PERCENTAGE\<rfloor> = 0
     \<and> (\<exists>tracked' colours'.
            select_tracked TRACK_PERCENTAGE (\<lambda>n. rev [0..<n]) [10, 11, 12]
              = Inr (1, tracked', colours')
          \<and> length tracked' = 1)"
proof -
  let ?ids = "map int [0..<10000]"
  have a: "distinct ?ids" by (simp add: distinct_map)
  have b: "?ids \<noteq> []" by simp
  have c: "0 < TRACK_PERCENTAGE" and d: "TRACK_PERCENTAGE \<le> 1"
    by (simp_all add: TRACK_PERCENTAGE_def)
  have e: "sort ((\<lambda>n. rev [0..<n]) (length ?ids)) = [0..<length ?ids]"
    by (rule sort_permutation) simp_all
  have k: "max 1 (nat \<lfloor>real (length ?ids) * TRACK_PERCENTAGE\<rfloor>) = 100"
    by (simp add: TRACK_PERCENTAGE_def)
  from select_tracked_count_subset_distinct
    [where permutation = "\<lambda>n. rev [0..<n]" and ids = ?ids and fraction = TRACK_PERCENTAGE,
      OF a b c d e]
  have big: "\<exists>tracked colours.
       select_tracked TRACK_PERCENTAGE (\<lambda>n. rev [0..<n]) ?ids = Inr (100, tracked, colours)
     \<and> length tracked = 100 \<and> set tracked \<subseteq> set ?ids \<and> distinct tracked"
    unfolding k by blast
  let ?small = "[10, 11, 12] :: int list"
  have a': "distinct ?small" and b': "?small \<noteq> []" by simp_all
  have e': "sort ((\<lambda>n. rev [0..<n]) (length ?small)) = [0..<length ?small]"
    by simp
  have z: "\<lfloor>real (length ?small) * TRACK_PERCENTAGE\<rfloor> = 0"
    by (simp add: TRACK_PERCENTAGE_def)
  from select_tracked_count_subset_distinct
    [where permutation = "\<lambda>n. rev [0..<n]" and ids = ?small and fraction = TRACK_PERCENTAGE,
      OF a' b' c d e']
  have small: "\<exists>tracked' colours'.
       select_tracked TRACK_PERCENTAGE (\<lambda>n. rev [0..<n]) ?small = Inr (1, tracked', colours')
     \<and> length tracked' = 1"
    unfolding z by auto
  from big z small show ?thesis
    by blast
qed

text \<open>
  Claim C6, as stated: the identifier at position \<open>i\<close> of the draw receives the colour
  whose hue is \<open>360 * i / tracked_count\<close> degrees. The scripts truncate the hue with
  \<^verbatim>\<open>int\<close>: a population of 700 identifiers gives seven tracked particles, and the
  second one drawn receives \<^verbatim>\<open>hsl(51, 70%, 50%)\<close>, while \<open>360 * 1 / 7\<close> is not 51.
\<close>

theorem tracked_hue_counterexample:
  "\<exists>colours.
       select_tracked TRACK_PERCENTAGE (\<lambda>n. [0..<n]) (map int [0..<700])
         = Inr (7, [0, 1, 2, 3, 4, 5, 6], colours)
     \<and> colours 1 = Some ''hsl(51, 70%, 50%)''
     \<and> (360 * 1 / 7 :: real) \<noteq> 51"
proof -
  let ?ids = "map int [0..<700]"
  let ?tracked = "[0, 1, 2, 3, 4, 5, 6] :: int list"
  have k: "num_tracked_of TRACK_PERCENTAGE (length ?ids) = 7"
    by (simp add: num_tracked_of_def TRACK_PERCENTAGE_def)
  have "map (\<lambda>i. ?ids ! i) [0..<7] = map int [0..<7]"
    by (rule map_cong) simp_all
  also have "\<dots> = ?tracked"
    by (simp add: upt_conv_Cons)
  finally have tr: "map (\<lambda>i. ?ids ! i) [0..<7] = ?tracked" .
  have "random_choice (\<lambda>n. [0..<n]) ?ids 7 = Inr (map (\<lambda>i. ?ids ! i) [0..<7])"
    by (simp add: random_choice_def)
  then have rc: "random_choice (\<lambda>n. [0..<n]) ?ids 7 = Inr ?tracked"
    by (simp only: tr)
  have sel: "select_tracked TRACK_PERCENTAGE (\<lambda>n. [0..<n]) ?ids
      = Inr (7, ?tracked, particle_colors ?tracked 7)"
    by (simp only: select_tracked_def Let_def k rc bind_def sum.case)
  have "particle_colors ?tracked 7 (?tracked ! 1) = Some (hsl_color (hue 1 7))"
    by (rule particle_colors_nth) simp_all
  moreover have "hue 1 7 = 51" by (simp add: hue_div)
  moreover have "hsl_color 51 = ''hsl(51, 70%, 50%)''"
    by (simp add: hsl_color_def str_nat.simps digit_char_def)
  ultimately have "particle_colors ?tracked 7 1 = Some ''hsl(51, 70%, 50%)''"
    by simp
  with sel show ?thesis by simp
qed

text \<open>
  Claim C6, amended: for every selection the identifier at position \<open>i\<close> of the draw
  order (the order is not sorted) receives the colour string
  \<^verbatim>\<open>hsl(h, 70%, 50%)\<close> with \<open>h = floor(360 * i / tracked_count)\<close>, for every \<open>i\<close> from 0
  to \<open>tracked_count - 1\<close>. The colours are a function of the draw order and the count
  alone, so the same draw order gives the same colours.
\<close>

theorem tracked_colors_by_position:
  assumes "distinct ids" and "ids \<noteq> []"
    and "0 < fraction" and "fraction \<le> 1"
    and "sort (permutation (length ids)) = [0..<length ids]"
  shows "\<exists>k tracked colours.
       select_tracked fraction permutation ids = Inr (k, tracked, colours)
     \<and> length tracked = k
     \<and> tracked = map (\<lambda>i. ids ! i) (take k (permutation (length ids)))
     \<and> colours = particle_colors tracked k
     \<and> (\<forall>i < k. colours (tracked ! i)
            = Some (''hsl('' @ str_nat (nat \<lfloor>360 * real i / real k\<rfloor>) @ '', 70%, 50%)''))
     \<and> (\<forall>i < k. nat \<lfloor>360 * real i / real k\<rfloor> = 360 * i div k)"
proof -
  let ?k = "num_tracked_of fraction (length ids)"
  let ?tracked = "map (\<lambda>i. ids ! i) (take ?k (permutation (length ids)))"
  have n: "0 < length ids" using assms(2) by simp
  have k: "?k \<le> length ids"
    by (rule num_tracked_of_bounds(2) [OF n assms(3,4)])
  note rc = random_choice_ok [where permutation = permutation and a = ids, OF assms(5) k assms(2)]
  have sel: "select_tracked fraction permutation ids
      = Inr (?k, ?tracked, particle_colors ?tracked ?k)"
    by (simp add: select_tracked_def Let_def rc(1) bind_def)
  have col: "\<forall>i < ?k. particle_colors ?tracked ?k (?tracked ! i)
      = Some (''hsl('' @ str_nat (nat \<lfloor>360 * real i / real ?k\<rfloor>) @ '', 70%, 50%)'')"
  proof (intro allI impI)
    fix i assume "i < ?k"
    from particle_colors_nth [OF rc(4) [OF assms(1)] rc(2) this]
    show "particle_colors ?tracked ?k (?tracked ! i)
      = Some (''hsl('' @ str_nat (nat \<lfloor>360 * real i / real ?k\<rfloor>) @ '', 70%, 50%)'')"
      by (simp add: hsl_color_def hue_def)
  qed
  have dv: "\<forall>i < ?k. nat \<lfloor>360 * real i / real ?k\<rfloor> = 360 * i div ?k"
    using hue_div by (simp add: hue_def)
  show ?thesis
    using sel rc(2) col dv by blast
qed

theorem tracked_colors_by_position_witness:
  "\<exists>colours.
       select_tracked TRACK_PERCENTAGE (\<lambda>n. rev [0..<n]) (map int [0..<300])
         = Inr (3, [299, 298, 297], colours)
     \<and> colours 299 = Some ''hsl(0, 70%, 50%)''
     \<and> colours 298 = Some ''hsl(120, 70%, 50%)''
     \<and> colours 297 = Some ''hsl(240, 70%, 50%)''"
proof -
  let ?ids = "map int [0..<300]"
  let ?p = "\<lambda>n::nat. rev [0..<n]"
  have a: "distinct ?ids" by (simp add: distinct_map)
  have b: "?ids \<noteq> []" by simp
  have c: "0 < TRACK_PERCENTAGE" and d: "TRACK_PERCENTAGE \<le> 1"
    by (simp_all add: TRACK_PERCENTAGE_def)
  have e: "sort (?p (length ?ids)) = [0..<length ?ids]"
    by (rule sort_permutation) simp_all
  from tracked_colors_by_position
    [where permutation = ?p and ids = ?ids and fraction = TRACK_PERCENTAGE, OF a b c d e]
  obtain k tracked colours
    where sel: "select_tracked TRACK_PERCENTAGE ?p ?ids = Inr (k, tracked, colours)"
      and tr: "tracked = map (\<lambda>i. ?ids ! i) (take k (?p (length ?ids)))"
      and col: "\<forall>i < k. colours (tracked ! i)
            = Some (''hsl('' @ str_nat (nat \<lfloor>360 * real i / real k\<rfloor>) @ '', 70%, 50%)'')"
    by auto
  have "num_tracked_of TRACK_PERCENTAGE (length ?ids) = 3"
    by (simp add: num_tracked_of_def TRACK_PERCENTAGE_def)
  with sel have k3: "k = 3"
    by (auto simp: select_tracked_def Let_def bind_Inr_iff)
  have "take 3 (rev [0..<300]) = rev [297..<300]"
    by (simp add: take_rev)
  also have "\<dots> = [299, 298, 297]"
    by (simp add: upt_conv_Cons)
  finally have p3: "take 3 (rev [0..<300]) = [299, 298, 297]" .
  have t3: "tracked = [299, 298, 297]"
    unfolding tr k3 by (simp add: p3)
  have s0: "str_nat 0 = ''0''" and s120: "str_nat 120 = ''120''" and s240: "str_nat 240 = ''240''"
    by (simp_all add: str_nat.simps digit_char_def)
  have c0: "colours 299 = Some ''hsl(0, 70%, 50%)''"
    using col [rule_format, of 0] by (simp add: k3 t3 s0)
  have c1: "colours 298 = Some ''hsl(120, 70%, 50%)''"
    using col [rule_format, of 1] by (simp add: k3 t3 s120)
  have c2: "colours 297 = Some ''hsl(240, 70%, 50%)''"
    using col [rule_format, of 2] by (simp add: k3 t3 s240)
  show ?thesis
    using sel c0 c1 c2 unfolding k3 t3 by blast
qed

section \<open>Claims about the encoder run and the exit status\<close>

text \<open>
  Claim C3. For every run of the encoder at the end of \<^verbatim>\<open>generate_standard_mp4\<close> or
  \<^verbatim>\<open>generate_tracking_mp4\<close>: when the encoder returns 0, the directory of frames is
  removed and the call returns normally; when it returns another code, the world is left
  as it was, with the directory and every frame in it, and \<^verbatim>\<open>CalledProcessError\<close>
  carrying the captured output is raised. \<^verbatim>\<open>main\<close> catches that exception, logs it and
  the captured error stream at level ERROR, and returns 1.
\<close>

theorem assemble_cleanup_on_success_only:
  "(returncode (ffmpeg env (ffmpeg_cmd temp_dir output_mp4) (dirs w)) = 0 \<longrightarrow>
      assemble env temp_dir output_mp4 w = (w\<lparr>dirs := (dirs w)(temp_dir := None)\<rparr>, Inr ()))
   \<and> (returncode (ffmpeg env (ffmpeg_cmd temp_dir output_mp4) (dirs w)) \<noteq> 0 \<longrightarrow>
      assemble env temp_dir output_mp4 w =
        (w, Inl (CalledProcessError
                   (returncode (ffmpeg env (ffmpeg_cmd temp_dir output_mp4) (dirs w)))
                   (stdout (ffmpeg env (ffmpeg_cmd temp_dir output_mp4) (dirs w)))
                   (stderr (ffmpeg env (ffmpeg_cmd temp_dir output_mp4) (dirs w))))))
   \<and> (check_dependencies env w = (w1, True)
        \<and> read_binary_simulation (decode_float64 env) (base @ INPUT_FILE) (simulation_files env)
            = Inr df
        \<and> read_parameters (parse_float env) (parameter_text env) = (warnings, ps)
        \<and> estimate_mp4 ps df = Inr g
        \<and> generate_videos base env df g (w1\<lparr>logged := logged w1 @ warnings\<rparr>)
            = (w3, Inl (CalledProcessError rc out err))
      \<longrightarrow> main base env w =
            (w3\<lparr>logged := logged w3 @
                  [ERROR (WithError ''ffmpeg failed'' (CalledProcessError rc out err)),
                   ERROR (Text err)]\<rparr>,
             Inr 1))"
proof (intro conjI impI)
  assume "returncode (ffmpeg env (ffmpeg_cmd temp_dir output_mp4) (dirs w)) = 0"
  then show "assemble env temp_dir output_mp4 w = (w\<lparr>dirs := (dirs w)(temp_dir := None)\<rparr>, Inr ())"
    by (simp add: assemble_def run_checked_def rmtree_def Let_def)
next
  assume "returncode (ffmpeg env (ffmpeg_cmd temp_dir output_mp4) (dirs w)) \<noteq> 0"
  then show "assemble env temp_dir output_mp4 w =
        (w, Inl (CalledProcessError
                   (returncode (ffmpeg env (ffmpeg_cmd temp_dir output_mp4) (dirs w)))
                   (stdout (ffmpeg env (ffmpeg_cmd temp_dir output_mp4) (dirs w)))
                   (stderr (ffmpeg env (ffmpeg_cmd temp_dir output_mp4) (dirs w)))))"
    by (simp add: assemble_def run_checked_def Let_def)
next
  assume "check_dependencies env w = (w1, True)
        \<and> read_binary_simulation (decode_float64 env) (base @ INPUT_FILE) (simulation_files env)
            = Inr df
        \<and> read_parameters (parse_float env) (parameter_text env) = (warnings, ps)
        \<and> estimate_mp4 ps df = Inr g
        \<and> generate_videos base env df g (w1\<lparr>logged := logged w1 @ warnings\<rparr>)
            = (w3, Inl (CalledProcessError rc out err))"
  then show "main base env w =
            (w3\<lparr>logged := logged w3 @
                  [ERROR (WithError ''ffmpeg failed'' (CalledProcessError rc out err)),
                   ERROR (Text err)]\<rparr>,
             Inr 1)"
    by (simp add: main_def logging_call_def)
qed

text \<open>
  A run on a small input: one particle at the origin, one frame with timestep 0, no
  parameter file, and an encoder that answers every call with a fixed result.
\<close>

lemma str_nat_small: "n < 10 \<Longrightarrow> str_nat n = [digit_char n]"
  by (subst str_nat.simps) simp

lemma check_dependencies_ok:
  "kaleido_importable env \<Longrightarrow> ffmpeg_on_path env \<Longrightarrow> check_dependencies env w = (w, True)"
  by (simp add: check_dependencies_def)

lemma read_parameters_absent:
  "read_parameters float None =
     ([WARNING (WithError ''Error reading parameters'' (FileNotFoundError ''parameter.txt''))],
      None)"
  by (simp add: read_parameters_def parse_parameters_def)

lemma main_after_encoder_failure:
  assumes "check_dependencies env w = (w1, True)"
    and "read_binary_simulation (decode_float64 env) (base @ INPUT_FILE) (simulation_files env)
           = Inr df"
    and "read_parameters (parse_float env) (parameter_text env) = (warnings, ps)"
    and "estimate_mp4 ps df = Inr g"
    and "generate_videos base env df g (w1\<lparr>logged := logged w1 @ warnings\<rparr>)
           = (w3, Inl (CalledProcessError rc out err))"
  shows "main base env w =
            (w3\<lparr>logged := logged w3 @
                  [ERROR (WithError ''ffmpeg failed'' (CalledProcessError rc out err)),
                   ERROR (Text err)]\<rparr>,
             Inr 1)"
  using assms by (simp add: main_def logging_call_def)

lemma example_read:
  "read_binary_simulation (\<lambda>bs. 0) filename
     \<lparr>bin_file = Some ([1, 0, 0, 0, 1, 0, 0, 0] @ [0, 0, 0, 0] @ replicate 48 0),
      csv_file = None\<rparr>
   = Inr \<lparr>columns = row_keys,
          rows = [\<lparr>Particles = 0, x_position = 0, y_position = 0, z_position = 0,
                   ex_orientation = 0, ey_orientation = 0, ez_orientation = 0, time = 0\<rparr>]\<rparr>"
  by (simp add: decode_eval)

lemma example_estimate:
  "estimate_mp4 None
     \<lparr>columns = row_keys,
      rows = [\<lparr>Particles = 0, x_position = 0, y_position = 0, z_position = 0,
               ex_orientation = 0, ey_orientation = 0, ez_orientation = 0, time = 0\<rparr>]\<rparr>
   = Inr \<lparr>radius = Some 0, height_min = Some 0, height_max = Some 0\<rparr>"
  by (simp add: estimate_mp4_def column_def row_keys_def bind_def)

lemma example_standard_failure:
  assumes "ffmpeg env = (\<lambda>cmd ds. p)" and "returncode p \<noteq> 0"
  shows "generate_standard_mp4 base env
     \<lparr>columns = row_keys,
      rows = [\<lparr>Particles = 0, x_position = 0, y_position = 0, z_position = 0,
               ex_orientation = 0, ey_orientation = 0, ez_orientation = 0, time = 0\<rparr>]\<rparr>
     g \<lparr>dirs = Map.empty, logged = l\<rparr>
   = (\<lparr>dirs = [base @ ''temp_frames/standard'' \<mapsto>
                [''frame_0000.png'' \<mapsto>
                   StandardFrame ''Active Brownian Particles - Frame 0'' g [(0, 0, 0)]]],
       logged = l\<rparr>,
      Inl (CalledProcessError (returncode p) (stdout p) (stderr p)))"
proof -
  let ?df = "\<lparr>columns = row_keys,
      rows = [\<lparr>Particles = 0, x_position = 0, y_position = 0, z_position = 0,
               ex_orientation = 0, ey_orientation = 0, ez_orientation = 0, time = 0\<rparr>]\<rparr>
      :: (int, real) dataframe"
  have ts: "timesteps_of ?df = Inr [0]"
    by (simp add: timesteps_of_def column_def row_keys_def bind_def)
  have fr: "render_standard_frame ?df 0 g =
      Inr (StandardFrame ''Active Brownian Particles - Frame 0'' g [(0, 0, 0)])"
    by (simp add: render_standard_frame_def column_def row_keys_def bind_def points_of_def
        select_rows_def str_int_def str_nat_small digit_char_def)
  have nm: "frame_name 0 = ''frame_0000.png''"
    by (simp add: frame_name_def format_04d_def str_nat_small digit_char_def numeral_3_eq_3)
  show ?thesis
    using assms(2)
    by (simp add: generate_standard_mp4_def ts fr nm mkdir_def write_image_def assemble_def
        run_checked_def assms(1) TEMP_FRAMES_DIR_def)
qed

theorem assemble_cleanup_on_success_only_witness:
  "let E = (\<lambda>rc. \<lparr>kaleido_importable = True, ffmpeg_on_path = True,
               simulation_files =
                 \<lparr>bin_file = Some ([1, 0, 0, 0, 1, 0, 0, 0] @ [0, 0, 0, 0] @ replicate 48 0),
                  csv_file = None\<rparr>,
               decode_float64 = (\<lambda>bs. 0), parameter_text = None, parse_float = (\<lambda>s. None),
               rng_permutation = (\<lambda>n. [0..<n]),
               ffmpeg = (\<lambda>cmd ds. \<lparr>returncode = rc, stdout = [], stderr = ''boom''\<rparr>)\<rparr>);
       frames = [''temp_frames/standard'' \<mapsto>
                  [''frame_0000.png'' \<mapsto>
                     StandardFrame ''Active Brownian Particles - Frame 0''
                       \<lparr>radius = Some 0, height_min = Some 0, height_max = Some 0\<rparr>
                       [(0, 0, 0)]]]
   in assemble (E 0) ''temp_frames/standard'' ''figures/particles_standard.mp4''
        \<lparr>dirs = frames, logged = []\<rparr>
        = (\<lparr>dirs = Map.empty, logged = []\<rparr>, Inr ())
    \<and> assemble (E 1) ''temp_frames/standard'' ''figures/particles_standard.mp4''
        \<lparr>dirs = frames, logged = []\<rparr>
        = (\<lparr>dirs = frames, logged = []\<rparr>, Inl (CalledProcessError 1 [] ''boom''))
    \<and> main [] (E 1) \<lparr>dirs = Map.empty, logged = []\<rparr>
        = (\<lparr>dirs = frames,
            logged = [WARNING (WithError ''Error reading parameters''
                                 (FileNotFoundError ''parameter.txt'')),
                      ERROR (WithError ''ffmpeg failed'' (CalledProcessError 1 [] ''boom'')),
                      ERROR (Text ''boom'')]\<rparr>,
           Inr 1)"
proof -
  let ?E = "\<lambda>rc. \<lparr>kaleido_importable = True, ffmpeg_on_path = True,
               simulation_files =
                 \<lparr>bin_file = Some ([1, 0, 0, 0, 1, 0, 0, 0] @ [0, 0, 0, 0] @ replicate 48 0),
                  csv_file = None\<rparr>,
               decode_float64 = (\<lambda>bs. 0::real), parameter_text = None,
               parse_float = (\<lambda>s. None),
               rng_permutation = (\<lambda>n. [0..<n]),
               ffmpeg = (\<lambda>cmd ds. \<lparr>returncode = rc, stdout = [], stderr = ''boom''\<rparr>)\<rparr>"
  let ?g = "\<lparr>radius = Some 0, height_min = Some 0, height_max = Some 0\<rparr>"
  let ?frames = "[''temp_frames/standard'' \<mapsto>
                  [''frame_0000.png'' \<mapsto>
                     StandardFrame ''Active Brownian Particles - Frame 0'' ?g [(0, 0, 0)]]]"
  let ?wf = "\<lparr>dirs = ?frames, logged = []\<rparr>"
  let ?w0 = "\<lparr>dirs = Map.empty, logged = []\<rparr>"
  let ?df = "\<lparr>columns = row_keys,
      rows = [\<lparr>Particles = 0, x_position = 0, y_position = 0, z_position = 0,
               ex_orientation = 0, ey_orientation = 0, ez_orientation = 0, time = 0\<rparr>]\<rparr>
      :: (int, real) dataframe"
  let ?warn = "[WARNING (WithError ''Error reading parameters''
                           (FileNotFoundError ''parameter.txt''))]"
  note ok = assemble_cleanup_on_success_only
    [where env = "?E 0" and temp_dir = "''temp_frames/standard''"
       and ?output_mp4.0 = "''figures/particles_standard.mp4''" and w = ?wf,
     THEN conjunct1, rule_format]
  have s: "assemble (?E 0) ''temp_frames/standard'' ''figures/particles_standard.mp4'' ?wf
      = (?w0, Inr ())"
    using ok by simp
  note bad = assemble_cleanup_on_success_only
    [where env = "?E 1" and temp_dir = "''temp_frames/standard''"
       and ?output_mp4.0 = "''figures/particles_standard.mp4''" and w = ?wf,
     THEN conjunct2, THEN conjunct1, rule_format]
  have f: "assemble (?E 1) ''temp_frames/standard'' ''figures/particles_standard.mp4'' ?wf
      = (?wf, Inl (CalledProcessError 1 [] ''boom''))"
    using bad by simp
  have h1: "check_dependencies (?E 1) ?w0 = (?w0, True)"
    by (rule check_dependencies_ok) simp_all
  have h2: "read_binary_simulation (decode_float64 (?E 1)) ([] @ INPUT_FILE)
      (simulation_files (?E 1)) = Inr ?df"
    using example_read [of "[] @ INPUT_FILE"] by simp
  have h3: "read_parameters (parse_float (?E 1)) (parameter_text (?E 1)) = (?warn, None)"
    using read_parameters_absent [of "\<lambda>s. None"] by simp
  have h4: "estimate_mp4 None ?df = Inr ?g"
    by (rule example_estimate)
  have "generate_standard_mp4 [] (?E 1) ?df ?g \<lparr>dirs = Map.empty, logged = ?warn\<rparr>
      = (\<lparr>dirs = ?frames, logged = ?warn\<rparr>, Inl (CalledProcessError 1 [] ''boom''))"
    using example_standard_failure
      [where env = "?E 1" and p = "\<lparr>returncode = 1, stdout = [], stderr = ''boom''\<rparr>"
         and base = "[]" and g = ?g and l = ?warn]
    by simp
  then have h5: "generate_videos [] (?E 1) ?df ?g (?w0\<lparr>logged := logged ?w0 @ ?warn\<rparr>)
      = (\<lparr>dirs = ?frames, logged = ?warn\<rparr>, Inl (CalledProcessError 1 [] ''boom''))"
    by (simp add: generate_videos_def)
  note run = assemble_cleanup_on_success_only
    [where env = "?E 1" and w = ?w0 and ?w1.0 = ?w0 and base = "[]" and df = ?df
       and warnings = ?warn and ps = None and g = ?g
       and ?w3.0 = "\<lparr>dirs = ?frames, logged = ?warn\<rparr>"
       and rc = 1 and out = "[]" and err = "''boom''",
     THEN conjunct2, THEN conjunct2, rule_format]
  have m: "main [] (?E 1) ?w0
      = (\<lparr>dirs = ?frames,
          logged = [WARNING (WithError ''Error reading parameters''
                               (FileNotFoundError ''parameter.txt'')),
                    ERROR (WithError ''ffmpeg failed'' (CalledProcessError 1 [] ''boom'')),
                    ERROR (Text ''boom'')]\<rparr>,
         Inr 1)"
    using run h1 h2 h3 h4 h5 by simp
  show ?thesis
    unfolding Let_def using s f m by blast
qed

text \<open>
  What \<^verbatim>\<open>main\<close> returns, and the exit status that follows from it in each script.
\<close>

lemma main_dependency_check_first:
  assumes "\<not> kaleido_importable env \<or> \<not> ffmpeg_on_path env"
  shows "\<exists>msg. main base env w = (w\<lparr>logged := logged w @ [ERROR (Text msg)]\<rparr>, Inr 1)"
  using assms by (auto simp: main_def check_dependencies_def logging_call_def)

lemma main_returns_0_or_1:
  "snd (main base env w) = Inr code \<Longrightarrow> code = 0 \<or> code = 1"
  by (auto simp: main_def Let_def split: prod.splits sum.splits bool.splits error.splits)

lemma main_returns_0_iff:
  "snd (main base env w) = Inr 0 \<longleftrightarrow>
     (\<exists>w1 df warnings ps g w3.
        check_dependencies env w = (w1, True)
      \<and> read_binary_simulation (decode_float64 env) (base @ INPUT_FILE) (simulation_files env)
          = Inr df
      \<and> read_parameters (parse_float env) (parameter_text env) = (warnings, ps)
      \<and> estimate_mp4 ps df = Inr g
      \<and> generate_videos base env df g (w1\<lparr>logged := logged w1 @ warnings\<rparr>) = (w3, Inr ()))"
  by (auto simp: main_def Let_def split: prod.splits sum.splits bool.splits error.splits)

lemma generate_videos_ok_iff:
  "generate_videos base env df g w = (w3, Inr ()) \<longleftrightarrow>
     (\<exists>w2. generate_standard_mp4 base env df g w = (w2, Inr ())
         \<and> generate_tracking_mp4 base env df g w2 = (w3, Inr ()))"
  by (auto simp: generate_videos_def split: prod.splits sum.splits)

lemma exit_status_generate_mp4_zero_iff:
  "exit_status_generate_mp4 env w = 0 \<longleftrightarrow> snd (main [] env w) = Inr 0"
  using main_returns_0_or_1 [of "[]" env w]
  by (auto simp: exit_status_generate_mp4_def split: sum.splits)

lemma exit_status_generate_mp4_one_otherwise:
  "exit_status_generate_mp4 env w \<noteq> 0 \<Longrightarrow> exit_status_generate_mp4 env w = 1"
  using main_returns_0_or_1 [of "[]" env w]
  by (auto simp: exit_status_generate_mp4_def split: sum.splits)

lemma exit_status_scripts_generate_mp4_returned:
  "snd (main ''../'' env w) = Inr code \<Longrightarrow> exit_status_scripts_generate_mp4 env w = 0"
  by (simp add: exit_status_scripts_generate_mp4_def)

text \<open>
  Claim C8. \<^verbatim>\<open>main\<close> returns 1 when a dependency is missing, before anything is read or
  rendered, and when the encoder fails, and \<^verbatim>\<open>generate_mp4.py\<close> hands that value to
  \<^verbatim>\<open>exit\<close>. \<^verbatim>\<open>scripts/generate_mp4.py\<close> calls \<^verbatim>\<open>main()\<close> and drops the value: with
  \<^verbatim>\<open>kaleido\<close> missing, and with a failing encoder, \<^verbatim>\<open>main\<close> returns 1 and the process
  still ends with status 0.
\<close>

theorem scripts_exit_status_ignores_failure:
  "let E = (\<lambda>kaleido. \<lparr>kaleido_importable = kaleido, ffmpeg_on_path = True,
               simulation_files =
                 \<lparr>bin_file = Some ([1, 0, 0, 0, 1, 0, 0, 0] @ [0, 0, 0, 0] @ replicate 48 0),
                  csv_file = None\<rparr>,
               decode_float64 = (\<lambda>bs. 0), parameter_text = None, parse_float = (\<lambda>s. None),
               rng_permutation = (\<lambda>n. [0..<n]),
               ffmpeg = (\<lambda>cmd ds. \<lparr>returncode = 1, stdout = [], stderr = ''boom''\<rparr>)\<rparr>);
       w0 = \<lparr>dirs = Map.empty, logged = []\<rparr>
   in main ''../'' (E False) w0
        = (\<lparr>dirs = Map.empty,
            logged = [ERROR (Text ''kaleido not installed. Install with: uv add kaleido'')]\<rparr>,
           Inr 1)
    \<and> exit_status_scripts_generate_mp4 (E False) w0 = 0
    \<and> exit_status_generate_mp4 (E False) w0 = 1
    \<and> snd (main ''../'' (E True) w0) = Inr 1
    \<and> exit_status_scripts_generate_mp4 (E True) w0 = 0
    \<and> exit_status_generate_mp4 (E True) w0 = 1"
proof -
  let ?E = "\<lambda>kaleido. \<lparr>kaleido_importable = kaleido, ffmpeg_on_path = True,
               simulation_files =
                 \<lparr>bin_file = Some ([1, 0, 0, 0, 1, 0, 0, 0] @ [0, 0, 0, 0] @ replicate 48 0),
                  csv_file = None\<rparr>,
               decode_float64 = (\<lambda>bs. 0::real), parameter_text = None,
               parse_float = (\<lambda>s. None),
               rng_permutation = (\<lambda>n. [0..<n]),
               ffmpeg = (\<lambda>cmd ds. \<lparr>returncode = 1, stdout = [], stderr = ''boom''\<rparr>)\<rparr>"
  let ?w0 = "\<lparr>dirs = Map.empty, logged = []\<rparr>"
  let ?g = "\<lparr>radius = Some 0, height_min = Some 0, height_max = Some 0\<rparr>"
  let ?df = "\<lparr>columns = row_keys,
      rows = [\<lparr>Particles = 0, x_position = 0, y_position = 0, z_position = 0,
               ex_orientation = 0, ey_orientation = 0, ez_orientation = 0, time = 0\<rparr>]\<rparr>
      :: (int, real) dataframe"
  let ?warn = "[WARNING (WithError ''Error reading parameters''
                           (FileNotFoundError ''parameter.txt''))]"
  have miss: "main base (?E False) ?w0
      = (\<lparr>dirs = Map.empty,
          logged = [ERROR (Text ''kaleido not installed. Install with: uv add kaleido'')]\<rparr>,
         Inr 1)" for base
    by (simp add: main_def check_dependencies_def logging_call_def)
  have h1: "check_dependencies (?E True) ?w0 = (?w0, True)"
    by (rule check_dependencies_ok) simp_all
  have h2: "read_binary_simulation (decode_float64 (?E True)) (base @ INPUT_FILE)
      (simulation_files (?E True)) = Inr ?df" for base
    using example_read [of "base @ INPUT_FILE"] by simp
  have h3: "read_parameters (parse_float (?E True)) (parameter_text (?E True)) = (?warn, None)"
    using read_parameters_absent [of "\<lambda>s. None"] by simp
  have h4: "estimate_mp4 None ?df = Inr ?g"
    by (rule example_estimate)
  let ?w3 = "\<lambda>base. \<lparr>dirs = [base @ ''temp_frames/standard'' \<mapsto>
                [''frame_0000.png'' \<mapsto>
                   StandardFrame ''Active Brownian Particles - Frame 0'' ?g [(0, 0, 0)]]],
       logged = ?warn\<rparr>"
  have gs: "generate_standard_mp4 base (?E True) ?df ?g \<lparr>dirs = Map.empty, logged = ?warn\<rparr>
      = (?w3 base, Inl (CalledProcessError 1 [] ''boom''))" for base
    using example_standard_failure
      [where env = "?E True" and p = "\<lparr>returncode = 1, stdout = [], stderr = ''boom''\<rparr>"
         and base = base and g = ?g and l = ?warn]
    by simp
  have h5: "generate_videos base (?E True) ?df ?g (?w0\<lparr>logged := logged ?w0 @ ?warn\<rparr>)
      = (?w3 base, Inl (CalledProcessError 1 [] ''boom''))" for base
    using gs [of base] by (simp add: generate_videos_def)
  have fail: "snd (main base (?E True) ?w0) = Inr 1" for base
    using main_after_encoder_failure [OF h1 h2 [of base] h3 h4 h5 [of base]] by simp
  show ?thesis
    unfolding Let_def exit_status_scripts_generate_mp4_def exit_status_generate_mp4_def
    by (simp only: miss fail snd_conv sum.case simp_thms)
qed

section \<open>Facts about the dimensions\<close>

lemma column_DataFrame:
  "column (DataFrame data) name field =
     (if data \<noteq> [] \<and> name \<in> set row_keys then Inr (map field data) else Inl (KeyError name))"
  by (simp add: column_def DataFrame_def)

lemma series_max_Max: "vs \<noteq> [] \<Longrightarrow> series_max vs = Some (Max (set vs))"
proof (cases vs)
  case Nil
  assume "vs \<noteq> []"
  with Nil show ?thesis by simp
next
  case (Cons v rest)
  have "fold max rest v = Max (set (v # rest))"
    by (rule Max.set_eq_fold [symmetric])
  then show ?thesis
    by (simp only: Cons series_max.simps)
qed

lemma series_min_Min: "vs \<noteq> [] \<Longrightarrow> series_min vs = Some (Min (set vs))"
proof (cases vs)
  case Nil
  assume "vs \<noteq> []"
  with Nil show ?thesis by simp
next
  case (Cons v rest)
  have "fold min rest v = Min (set (v # rest))"
    by (rule Min.set_eq_fold [symmetric])
  then show ?thesis
    by (simp only: Cons series_min.simps)
qed

lemma py_max_Some: "py_max (Some a) (Some b) = Some (max a b)"
  by (simp add: max_def)

lemma Max_pointwise_max:
  fixes f g :: "'r \<Rightarrow> real"
  assumes "rs \<noteq> []"
  shows "max (Max (set (map f rs))) (Max (set (map g rs)))
           = Max (set (map (\<lambda>r. max (f r) (g r)) rs))"
  using assms
proof (induction rs rule: list_nonempty_induct)
  case (single r)
  show ?case by simp
next
  case (cons r rs)
  have "max (Max (set (map f (r # rs)))) (Max (set (map g (r # rs))))
      = max (max (f r) (Max (set (map f rs)))) (max (g r) (Max (set (map g rs))))"
    using cons.hyps by simp
  also have "\<dots> = max (max (f r) (g r))
      (max (Max (set (map f rs))) (Max (set (map g rs))))"
    by (simp add: max.assoc max.left_commute)
  also have "\<dots> = max (max (f r) (g r)) (Max (set (map (\<lambda>r. max (f r) (g r)) rs)))"
    by (simp only: cons.IH)
  also have "\<dots> = Max (set (map (\<lambda>r. max (f r) (g r)) (r # rs)))"
    using cons.hyps by simp
  finally show ?case .
qed

lemma map2_columns:
  "map2 h (map a rs) (map b rs) = map (\<lambda>r. h (a r) (b r)) rs"
  by (induction rs) simp_all

lemma estimate_mp4_fallback:
  assumes cols: "{''x-position'', ''y-position'', ''z-position''} \<subseteq> set (columns df)"
    and rows: "rows df \<noteq> []"
  shows "estimate_mp4 None df =
     Inr \<lparr>radius = Some (Max (set (map (\<lambda>r. max \<bar>x_position r\<bar> \<bar>y_position r\<bar>) (rows df))) * 1.1),
          height_min = Some (Min (set (map z_position (rows df)))),
          height_max = Some (Max (set (map z_position (rows df))))\<rparr>"
proof -
  have cx: "column df ''x-position'' x_position = Inr (map x_position (rows df))"
    and cy: "column df ''y-position'' y_position = Inr (map y_position (rows df))"
    and cz: "column df ''z-position'' z_position = Inr (map z_position (rows df))"
    using cols by (simp_all add: column_def)
  have ne: "map abs (map x_position (rows df)) \<noteq> []" "map abs (map y_position (rows df)) \<noteq> []"
    "map z_position (rows df) \<noteq> []"
    using rows by simp_all
  have x: "series_max (map abs (map x_position (rows df)))
      = Some (Max (set (map (\<lambda>r. \<bar>x_position r\<bar>) (rows df))))"
    using series_max_Max [OF ne(1)] by (simp add: comp_def)
  have y: "series_max (map abs (map y_position (rows df)))
      = Some (Max (set (map (\<lambda>r. \<bar>y_position r\<bar>) (rows df))))"
    using series_max_Max [OF ne(2)] by (simp add: comp_def)
  have m: "py_max (series_max (map abs (map x_position (rows df))))
                  (series_max (map abs (map y_position (rows df))))
      = Some (Max (set (map (\<lambda>r. max \<bar>x_position r\<bar> \<bar>y_position r\<bar>) (rows df))))"
    by (simp only: x y py_max_Some Max_pointwise_max [OF rows])
  note zmin = series_min_Min [OF ne(3)] and zmax = series_max_Max [OF ne(3)]
  show ?thesis
    by (simp only: estimate_mp4_def option.case cx cy cz bind_def sum.case m zmin zmax option.map)
qed

lemma estimate_video_fallback:
  assumes cols: "{''x-position'', ''y-position'', ''z-position''} \<subseteq> set (columns df)"
    and rows: "rows df \<noteq> []"
  shows "estimate_video None df =
     Inr \<lparr>radius = Some (sqrt (Max (set (map (\<lambda>r. (x_position r)\<^sup>2 + (y_position r)\<^sup>2) (rows df))))
                            * 1.1),
          height_min = Some (Min (set (map z_position (rows df)))),
          height_max = Some (Max (set (map z_position (rows df))))\<rparr>"
proof -
  have cx: "column df ''x-position'' x_position = Inr (map x_position (rows df))"
    and cy: "column df ''y-position'' y_position = Inr (map y_position (rows df))"
    and cz: "column df ''z-position'' z_position = Inr (map z_position (rows df))"
    using cols by (simp_all add: column_def)
  have ne: "map (\<lambda>r. (x_position r)\<^sup>2 + (y_position r)\<^sup>2) (rows df) \<noteq> []"
    "map z_position (rows df) \<noteq> []"
    using rows by simp_all
  have r: "series_max (map2 (\<lambda>x y. x\<^sup>2 + y\<^sup>2) (map x_position (rows df)) (map y_position (rows df)))
      = Some (Max (set (map (\<lambda>r. (x_position r)\<^sup>2 + (y_position r)\<^sup>2) (rows df))))"
    by (simp only: map2_columns series_max_Max [OF ne(1)])
  note zmin = series_min_Min [OF ne(2)] and zmax = series_max_Max [OF ne(2)]
  show ?thesis
    by (simp only: estimate_video_def option.case cx cy cz bind_def sum.case r zmin zmax option.map)
qed

lemma radial_distance_dominates:
  fixes rs :: "('p, real) row list"
  assumes "rs \<noteq> []"
  shows "Max (set (map (\<lambda>r. max \<bar>x_position r\<bar> \<bar>y_position r\<bar>) rs))
           \<le> sqrt (Max (set (map (\<lambda>r. (x_position r)\<^sup>2 + (y_position r)\<^sup>2) rs)))"
proof -
  let ?S = "set (map (\<lambda>r. (x_position r)\<^sup>2 + (y_position r)\<^sup>2) rs)"
  have fin: "finite ?S" by simp
  have "max \<bar>x_position r\<bar> \<bar>y_position r\<bar> \<le> sqrt (Max ?S)" if "r \<in> set rs" for r
  proof -
    have "(x_position r)\<^sup>2 + (y_position r)\<^sup>2 \<in> ?S"
      using that by auto
    then have le: "(x_position r)\<^sup>2 + (y_position r)\<^sup>2 \<le> Max ?S"
      using fin by (rule Max_ge [rotated])
    have "\<bar>x_position r\<bar> \<le> sqrt ((x_position r)\<^sup>2 + (y_position r)\<^sup>2)"
      using real_sqrt_sum_squares_ge1 [of "\<bar>x_position r\<bar>" "y_position r"] by simp
    moreover have "\<bar>y_position r\<bar> \<le> sqrt ((x_position r)\<^sup>2 + (y_position r)\<^sup>2)"
      using real_sqrt_sum_squares_ge2 [of "\<bar>y_position r\<bar>" "x_position r"] by simp
    ultimately have "max \<bar>x_position r\<bar> \<bar>y_position r\<bar>
        \<le> sqrt ((x_position r)\<^sup>2 + (y_position r)\<^sup>2)"
      by simp
    also have "\<dots> \<le> sqrt (Max ?S)"
      using le by simp
    finally show ?thesis .
  qed
  then show ?thesis
    using assms by (simp add: Max_le_iff)
qed

lemma read_parameters_None_iff:
  "snd (read_parameters float parameter_file) = None \<longleftrightarrow>
     (case parameter_file of
        None \<Rightarrow> True
      | Some content \<Rightarrow>
          length (split (CHR 0x09) (strip (readline content))) < 8
          \<or> float (split (CHR 0x09) (strip (readline content)) ! 6) = None
          \<or> float (split (CHR 0x09) (strip (readline content)) ! 7) = None)"
proof (cases parameter_file)
  case None
  then show ?thesis
    by (simp add: read_parameters_def parse_parameters_def)
next
  case (Some content)
  let ?ps = "split (CHR 0x09) (strip (readline content))"
  show ?thesis
  proof (cases "length ?ps < 8")
    case short: True
    show ?thesis
    proof (cases "6 < length ?ps")
      case True
      with short have "\<not> 7 < length ?ps" by simp
      then show ?thesis
        using short True
        by (simp add: Some read_parameters_def parse_parameters_def Let_def getitem_def bind_def
            to_float_def split: option.splits)
    next
      case False
      then show ?thesis
        using short
        by (simp add: Some read_parameters_def parse_parameters_def Let_def getitem_def bind_def)
    qed
  next
    case False
    then have "6 < length ?ps" "7 < length ?ps" by simp_all
    then show ?thesis
      using False
      by (simp add: Some read_parameters_def parse_parameters_def Let_def getitem_def bind_def
          to_float_def split: option.splits)
  qed
qed

lemma read_parameters_warns:
  "snd (read_parameters float parameter_file) = None \<Longrightarrow>
     \<exists>e. fst (read_parameters float parameter_file)
           = [WARNING (WithError ''Error reading parameters'' e)]"
  by (auto simp: read_parameters_def split: sum.splits)

section \<open>Claims about the dimensions\<close>

text \<open>
  Claim C5, as stated: when the parameter file cannot be used, the radius is
  \<open>1.1 * max(|x|, |y|)\<close> over all rows. \<^verbatim>\<open>generate_video.py\<close> uses the largest radial
  distance instead: with a parameter line of five fields and one particle at
  \<open>(3, 4, 0)\<close> its radius is \<open>5.5\<close>, not \<open>1.1 * 4\<close>.
\<close>

theorem fallback_radius_counterexample:
  "\<exists>g. snd (read_parameters (\<lambda>s. Some 1)
              (Some (''a'' @ [CHR 0x09] @ ''b'' @ [CHR 0x09] @ ''c'' @ [CHR 0x09] @ ''d''
                       @ [CHR 0x09] @ ''e''))) = None
     \<and> estimate_video None
          \<lparr>columns = row_keys,
           rows = [\<lparr>Particles = 0, x_position = 3, y_position = 4, z_position = 0,
                    ex_orientation = 0, ey_orientation = 0, ez_orientation = 1, time = 0\<rparr>]\<rparr>
          = Inr g
     \<and> radius g = Some (11 / 2)
     \<and> (11 / 2 :: real) \<noteq> 1.1 * max \<bar>3\<bar> \<bar>4\<bar>"
proof -
  have p: "snd (read_parameters (\<lambda>s. Some 1)
              (Some (''a'' @ [CHR 0x09] @ ''b'' @ [CHR 0x09] @ ''c'' @ [CHR 0x09] @ ''d''
                       @ [CHR 0x09] @ ''e''))) = None"
    by (simp add: read_parameters_None_iff readline_def strip_def is_space_def)
  have s: "sqrt 25 = (5::real)"
    by (rule real_sqrt_unique) simp_all
  have e: "estimate_video None
          \<lparr>columns = row_keys,
           rows = [\<lparr>Particles = 0, x_position = 3, y_position = 4, z_position = 0,
                    ex_orientation = 0, ey_orientation = 0, ez_orientation = 1, time = 0\<rparr>]\<rparr>
      = Inr \<lparr>radius = Some (11 / 2), height_min = Some 0, height_max = Some 0\<rparr>"
    by (simp add: estimate_video_def column_def row_keys_def bind_def s)
  show ?thesis
    using p e by simp
qed

text \<open>
  Claim C5, amended: whenever the parameter file is absent, its first line split on tab
  has fewer than 8 fields, or field 6 or 7 is not a number, \<^verbatim>\<open>read_parameters\<close>
  returns \<^verbatim>\<open>None\<close> and logs one warning, and both scripts take the data-derived path.
  For a table with the position columns and at least one row, the radius of
  \<^verbatim>\<open>generate_mp4.py\<close> is \<open>1.1 * max(|x|, |y|)\<close> over all rows; the radius of
  \<^verbatim>\<open>generate_video.py\<close> is \<open>1.1\<close> times the largest \<open>sqrt(x\<^sup>2 + y\<^sup>2)\<close>, which is at least
  the former.
\<close>

theorem fallback_radius:
  assumes bad: "parameter_file = None
      \<or> (\<exists>content. parameter_file = Some content
            \<and> (length (split (CHR 0x09) (strip (readline content))) < 8
               \<or> float (split (CHR 0x09) (strip (readline content)) ! 6) = None
               \<or> float (split (CHR 0x09) (strip (readline content)) ! 7) = None))"
    and cols: "{''x-position'', ''y-position'', ''z-position''} \<subseteq> set (columns df)"
    and rows: "rows df \<noteq> []"
  shows "\<exists>e g g'.
       read_parameters float parameter_file
         = ([WARNING (WithError ''Error reading parameters'' e)], None)
     \<and> estimate_mp4 (snd (read_parameters float parameter_file)) df = Inr g
     \<and> radius g
         = Some (1.1 * Max (set (map (\<lambda>r. max \<bar>x_position r\<bar> \<bar>y_position r\<bar>) (rows df))))
     \<and> estimate_video (snd (read_parameters float parameter_file)) df = Inr g'
     \<and> radius g'
         = Some (1.1 * sqrt (Max (set (map (\<lambda>r. (x_position r)\<^sup>2 + (y_position r)\<^sup>2) (rows df)))))
     \<and> 1.1 * Max (set (map (\<lambda>r. max \<bar>x_position r\<bar> \<bar>y_position r\<bar>) (rows df)))
         \<le> 1.1 * sqrt (Max (set (map (\<lambda>r. (x_position r)\<^sup>2 + (y_position r)\<^sup>2) (rows df))))"
proof -
  have none: "snd (read_parameters float parameter_file) = None"
    using bad unfolding read_parameters_None_iff by (auto split: option.splits)
  from read_parameters_warns [OF none] obtain e
    where "fst (read_parameters float parameter_file)
             = [WARNING (WithError ''Error reading parameters'' e)]" ..
  with none have rp: "read_parameters float parameter_file
      = ([WARNING (WithError ''Error reading parameters'' e)], None)"
    by (simp add: prod_eq_iff)
  have le: "1.1 * Max (set (map (\<lambda>r. max \<bar>x_position r\<bar> \<bar>y_position r\<bar>) (rows df)))
      \<le> 1.1 * sqrt (Max (set (map (\<lambda>r. (x_position r)\<^sup>2 + (y_position r)\<^sup>2) (rows df))))"
    using radial_distance_dominates [OF rows] by simp
  show ?thesis
    using rp le
    by (simp add: none estimate_mp4_fallback [OF cols rows] estimate_video_fallback [OF cols rows]
        mult.commute)
qed

theorem fallback_radius_witness:
  "\<exists>e g g'.
       read_parameters (\<lambda>s. Some 1)
         (Some (''a'' @ [CHR 0x09] @ ''b'' @ [CHR 0x09] @ ''c'' @ [CHR 0x09] @ ''d''
                  @ [CHR 0x09] @ ''e''))
         = ([WARNING (WithError ''Error reading parameters'' e)], None)
     \<and> estimate_mp4 None
          \<lparr>columns = row_keys,
           rows = [\<lparr>Particles = 0, x_position = 3, y_position = - 4, z_position = 0,
                    ex_orientation = 0, ey_orientation = 0, ez_orientation = 1, time = 0\<rparr>]\<rparr>
          = Inr g
     \<and> radius g = Some (1.1 * 4)
     \<and> estimate_video None
          \<lparr>columns = row_keys,
           rows = [\<lparr>Particles = 0, x_position = 3, y_position = - 4, z_position = 0,
                    ex_orientation = 0, ey_orientation = 0, ez_orientation = 1, time = 0\<rparr>]\<rparr>
          = Inr g'
     \<and> radius g' = Some (1.1 * 5)"
proof -
  let ?pf = "Some (''a'' @ [CHR 0x09] @ ''b'' @ [CHR 0x09] @ ''c'' @ [CHR 0x09] @ ''d''
                  @ [CHR 0x09] @ ''e'')"
  let ?df = "\<lparr>columns = row_keys,
           rows = [\<lparr>Particles = 0, x_position = 3, y_position = - 4, z_position = 0,
                    ex_orientation = 0, ey_orientation = 0, ez_orientation = 1, time = 0\<rparr>]\<rparr>
      :: (int, real) dataframe"
  have bad: "?pf = None
      \<or> (\<exists>content. ?pf = Some content
            \<and> (length (split (CHR 0x09) (strip (readline content))) < 8
               \<or> (\<lambda>s. Some (1::real)) (split (CHR 0x09) (strip (readline content)) ! 6) = None
               \<or> (\<lambda>s. Some (1::real)) (split (CHR 0x09) (strip (readline content)) ! 7) = None))"
    by (simp add: readline_def strip_def is_space_def)
  have cols: "{''x-position'', ''y-position'', ''z-position''} \<subseteq> set (columns ?df)"
    by (simp add: row_keys_def)
  have rows: "rows ?df \<noteq> []" by simp
  have s: "sqrt 25 = (5::real)"
    by (rule real_sqrt_unique) simp_all
  from fallback_radius [where float = "\<lambda>s. Some 1" and parameter_file = ?pf and df = ?df,
      OF bad cols rows]
  obtain e g g' where
    "read_parameters (\<lambda>s. Some 1) ?pf = ([WARNING (WithError ''Error reading parameters'' e)], None)"
    "estimate_mp4 (snd (read_parameters (\<lambda>s. Some 1) ?pf)) ?df = Inr g"
    "radius g = Some (1.1 * 4)"
    "estimate_video (snd (read_parameters (\<lambda>s. Some 1) ?pf)) ?df = Inr g'"
    "radius g' = Some (1.1 * 5)"
    by (auto simp: s)
  then show ?thesis
    by (intro exI [of _ e] exI [of _ g] exI [of _ g']) simp
qed

text \<open>
  Claim C9, as stated: the estimation fails exactly when the trajectory has no frame.
  There is no such check. A file that declares one frame of zero particles decodes to a
  table without rows, and the estimation of \<^verbatim>\<open>generate_mp4.py\<close> raises \<^verbatim>\<open>KeyError\<close>
  on it; and with a usable parameter file the estimation of \<^verbatim>\<open>generate_video.py\<close>
  returns a geometry for the table without rows.
\<close>

theorem estimate_empty_counterexample:
  "decode_binary (\<lambda>bs. 0) [0, 0, 0, 0, 1, 0, 0, 0, 7, 0, 0, 0] = Inr (DataFrame [])
   \<and> estimate_mp4 None (DataFrame []) = Inl (KeyError ''x-position'')
   \<and> estimate_mp4 (Some \<lparr>Wall = 5, height = 2\<rparr>) (DataFrame []) = Inl (KeyError ''z-position'')
   \<and> estimate_video (Some \<lparr>Wall = 5, height = 2\<rparr>) (DataFrame [])
        = Inr \<lparr>radius = Some 5, height_min = Some (- 2), height_max = Some 2\<rparr>"
proof -
  have "decode_binary (\<lambda>bs. 0) [0, 0, 0, 0, 1, 0, 0, 0, 7, 0, 0, 0]
      = Inr \<lparr>columns = [], rows = []\<rparr>"
    by (simp add: decode_eval)
  then have d: "decode_binary (\<lambda>bs. 0) [0, 0, 0, 0, 1, 0, 0, 0, 7, 0, 0, 0] = Inr (DataFrame [])"
    by (simp add: DataFrame_def)
  have e1: "estimate_mp4 None (DataFrame []) = Inl (KeyError ''x-position'')"
    by (simp add: estimate_mp4_def column_DataFrame bind_def)
  have e2: "estimate_mp4 (Some \<lparr>Wall = 5, height = 2\<rparr>) (DataFrame [])
      = Inl (KeyError ''z-position'')"
    by (simp add: estimate_mp4_def column_DataFrame bind_def)
  have e3: "estimate_video (Some \<lparr>Wall = 5, height = 2\<rparr>) (DataFrame [])
        = Inr \<lparr>radius = Some 5, height_min = Some (- 2), height_max = Some 2\<rparr>"
    by (simp add: estimate_video_def)
  show ?thesis
    using d e1 e2 e3 by blast
qed

text \<open>
  Claim C9, amended: for the table \<^verbatim>\<open>pd.DataFrame(data)\<close> that the binary reader
  builds, the estimation of \<^verbatim>\<open>generate_mp4.py\<close> fails exactly when \<open>data\<close> has no row,
  and then with \<^verbatim>\<open>KeyError\<close> for a position column; with at least one row it returns
  a geometry. The estimation of \<^verbatim>\<open>generate_video.py\<close> fails exactly when \<open>data\<close> has
  no row and the parameter file cannot be used. A file that declares \<open>n \<ge> 0\<close> particles and
  \<open>m\<close> frames and is read without error gives \<open>m * n\<close> rows, so the table has no row
  exactly when \<open>m = 0\<close> or \<open>n = 0\<close>.
\<close>

theorem estimate_fails_iff_no_rows:
  "((\<exists>e. estimate_mp4 ps (DataFrame data) = Inl e) \<longleftrightarrow> data = [])
   \<and> (data = [] \<longrightarrow>
        estimate_mp4 ps (DataFrame data)
          = Inl (KeyError (if ps = None then ''x-position'' else ''z-position'')))
   \<and> (data \<noteq> [] \<longrightarrow> (\<exists>g. estimate_mp4 ps (DataFrame data) = Inr g))
   \<and> ((\<exists>e. estimate_video ps (DataFrame data) = Inl e) \<longleftrightarrow> data = [] \<and> ps = None)
   \<and> (0 \<le> n \<and> read_frames float64 m n f [] = Inr data \<longrightarrow>
        length data = m * nat n \<and> (data = [] \<longleftrightarrow> m = 0 \<or> n = 0))"
proof (intro conjI impI)
  have keys: "''x-position'' \<in> set row_keys" "''y-position'' \<in> set row_keys"
    "''z-position'' \<in> set row_keys"
    by (simp_all add: row_keys_def)
  show a: "data = [] \<Longrightarrow> estimate_mp4 ps (DataFrame data)
      = Inl (KeyError (if ps = None then ''x-position'' else ''z-position''))"
    by (cases ps) (simp_all add: estimate_mp4_def column_DataFrame bind_def)
  show b: "data \<noteq> [] \<Longrightarrow> \<exists>g. estimate_mp4 ps (DataFrame data) = Inr g"
    by (cases ps) (simp_all add: estimate_mp4_def column_DataFrame bind_def keys)
  show "(\<exists>e. estimate_mp4 ps (DataFrame data) = Inl e) \<longleftrightarrow> data = []"
    using a b by (cases "data = []") auto
  show "(\<exists>e. estimate_video ps (DataFrame data) = Inl e) \<longleftrightarrow> data = [] \<and> ps = None"
    by (cases ps; cases "data = []")
       (simp_all add: estimate_video_def column_DataFrame bind_def keys)
  assume r: "0 \<le> n \<and> read_frames float64 m n f [] = Inr data"
  then have len: "length data = m * nat n"
    using read_frames_Inr_length [of float64 m n f "[]" data] by simp
  then show "length data = m * nat n" .
  have "data = [] \<longleftrightarrow> length data = 0" by simp
  also have "\<dots> \<longleftrightarrow> m = 0 \<or> nat n = 0" by (simp add: len)
  also have "\<dots> \<longleftrightarrow> m = 0 \<or> n = 0" using r by auto
  finally show "data = [] \<longleftrightarrow> m = 0 \<or> n = 0" .
qed

theorem estimate_fails_iff_no_rows_witness:
  "(\<exists>g. estimate_mp4 None
           (DataFrame [\<lparr>Particles = 0 :: int, x_position = 3, y_position = - 4, z_position = 0,
                         ex_orientation = 0, ey_orientation = 0, ez_orientation = 1,
                         time = 0\<rparr>]) = Inr g)
   \<and> estimate_mp4 None (DataFrame []) = Inl (KeyError ''x-position'')
   \<and> read_frames (\<lambda>bs. 0 :: real) 1 0 [7, 0, 0, 0] [] = Inr []
   \<and> length ([] :: (int, real) row list) = 1 * nat 0"
proof -
  let ?row = "\<lparr>Particles = 0 :: int, x_position = 3 :: real, y_position = - 4, z_position = 0,
                ex_orientation = 0, ey_orientation = 0, ez_orientation = 1, time = 0\<rparr>"
  note t1 = estimate_fails_iff_no_rows [where ps = None and data = "[?row]"]
  note t2 = estimate_fails_iff_no_rows [where ps = None and data = "[] :: (int, real) row list"]
  have rd: "read_frames (\<lambda>bs. 0 :: real) 1 0 [7, 0, 0, 0] [] = Inr []"
    by (simp add: fromfile_def getitem_def bind_def)
  note t3 = estimate_fails_iff_no_rows
    [where n = 0 and m = 1 and ?float64.0 = "\<lambda>bs. 0 :: real" and f = "[7, 0, 0, 0]"
       and data = "[] :: (int, real) row list"]
  have a: "\<exists>g. estimate_mp4 None (DataFrame [?row]) = Inr g"
    using t1 by simp
  have b: "estimate_mp4 None (DataFrame ([] :: (int, real) row list))
      = Inl (KeyError ''x-position'')"
    using t2 by simp
  have c: "length ([] :: (int, real) row list) = 1 * nat 0"
    using t3 rd by simp
  show ?thesis
    using a b rd c by blast
qed

section \<open>Facts about the CSV identifiers\<close>

lemma first_digit_run_empty_iff: "first_digit_run s = [] \<longleftrightarrow> (\<forall>c \<in> set s. \<not> is_digit c)"
proof
  assume e: "first_digit_run s = []"
  show "\<forall>c \<in> set s. \<not> is_digit c"
  proof (rule ccontr)
    assume "\<not> (\<forall>c \<in> set s. \<not> is_digit c)"
    then have ne: "dropWhile (\<lambda>c. \<not> is_digit c) s \<noteq> []"
      by (simp add: dropWhile_eq_Nil_conv)
    then have "is_digit (hd (dropWhile (\<lambda>c. \<not> is_digit c) s))"
      using hd_dropWhile [of "\<lambda>c. \<not> is_digit c" s] by simp
    with ne have "takeWhile is_digit (dropWhile (\<lambda>c. \<not> is_digit c) s) \<noteq> []"
      by (cases "dropWhile (\<lambda>c. \<not> is_digit c) s") simp_all
    with e show False by (simp add: first_digit_run_def)
  qed
next
  assume "\<forall>c \<in> set s. \<not> is_digit c"
  then have d: "dropWhile (\<lambda>c. \<not> is_digit c) s = []"
    by (simp add: dropWhile_eq_Nil_conv)
  show "first_digit_run s = []"
    by (simp only: first_digit_run_def d takeWhile.simps)
qed

lemma str_extract_None_iff: "str_extract s = None \<longleftrightarrow> (\<forall>c \<in> set s. \<not> is_digit c)"
  by (auto simp: str_extract_def Let_def dropWhile_eq_Nil_conv)

lemma str_extract_Some:
  "(\<exists>c \<in> set s. is_digit c) \<Longrightarrow> str_extract s = Some (first_digit_run s)"
  by (auto simp: str_extract_def first_digit_run_def Let_def dropWhile_eq_Nil_conv)

lemma first_digit_run_suffix:
  assumes "\<forall>c \<in> set pre. \<not> is_digit c" and "\<forall>c \<in> set ds. is_digit c"
  shows "first_digit_run (pre @ ds) = ds"
proof -
  have "dropWhile (\<lambda>c. \<not> is_digit c) (pre @ ds) = dropWhile (\<lambda>c. \<not> is_digit c) ds"
    using assms(1) by (simp add: dropWhile_append2)
  also have "\<dots> = ds"
    using assms(2) by (cases ds) simp_all
  finally have d: "dropWhile (\<lambda>c. \<not> is_digit c) (pre @ ds) = ds" .
  have t: "takeWhile is_digit ds = ds"
    using assms(2) by (simp add: takeWhile_eq_all_conv)
  show ?thesis
    by (simp add: first_digit_run_def d t)
qed

lemma first_digit_run_digits: "\<forall>c \<in> set (first_digit_run s). is_digit c"
  by (auto simp: first_digit_run_def dest: set_takeWhileD)

lemma digit_value_nonneg: "is_digit c \<Longrightarrow> 0 \<le> digit_value c"
  by (auto simp: is_digit_def digit_value_def)

lemma int_of_digits_nonneg: "\<forall>c \<in> set s. is_digit c \<Longrightarrow> 0 \<le> int_of_digits s"
proof (induction s rule: rev_induct)
  case Nil
  then show ?case by (simp add: int_of_digits_def)
next
  case (snoc c s)
  then have "0 \<le> int_of_digits s" and "0 \<le> digit_value c"
    by (simp_all add: digit_value_nonneg)
  then show ?case by (simp add: int_of_digits_snoc)
qed

lemma int64_of_object_ok:
  assumes "\<exists>c \<in> set s. is_digit c"
    and "length (first_digit_run s) \<le> INT_MAX_STR_DIGITS"
    and "int_of_digits (first_digit_run s) < 2 ^ 63"
  shows "int64_of_object (str_extract s) = Inr (int_of_digits (first_digit_run s))"
  using assms by (simp add: str_extract_Some int64_of_object_def py_int_def bind_def)

lemma astype_int_map_ok:
  "(\<And>r. r \<in> set rs \<Longrightarrow> int64_of_object (h r) = Inr (g r)) \<Longrightarrow>
     astype_int (map h rs) = Inr (map g rs)"
  by (induction rs) (simp_all add: bind_def)

lemma astype_int_first_offender:
  assumes "\<And>u. u \<in> set good \<Longrightarrow> \<exists>i. int64_of_object u = Inr i"
    and "int64_of_object v = Inl e"
  shows "astype_int (good @ v # rest) = Inl e"
  using assms(1)
proof (induction good)
  case Nil
  show ?case by (simp add: assms(2) bind_def)
next
  case (Cons u good)
  from Cons.prems [of u] obtain i where "int64_of_object u = Inr i" by auto
  moreover have "astype_int (good @ v # rest) = Inl e"
    by (rule Cons.IH) (simp add: Cons.prems)
  ultimately show ?case by (simp add: bind_def)
qed

lemma astype_int_range:
  "astype_int vs = Inr ids \<Longrightarrow> \<forall>i \<in> set ids. i < 2 ^ 63"
proof (induction vs arbitrary: ids)
  case Nil
  then show ?case by simp
next
  case (Cons v vs)
  then show ?case
    by (auto simp: bind_def int64_of_object_def split: sum.splits option.splits if_splits)
qed

lemma map2_same: "map2 h rs (map k rs) = map (\<lambda>r. h r (k r)) rs"
  by (induction rs) simp_all

section \<open>Claim about the CSV identifiers\<close>

text \<open>
  Claim C7, as stated: the numeric suffix of each label is extracted, and a row whose
  label has no digit fails with an error that names the row. The pattern \<^verbatim>\<open>(\d+)\<close>
  matches the first run of digits: the label \<^verbatim>\<open>a1b22\<close>, whose numeric suffix is 22,
  becomes the identifier 1. A label without a digit makes the conversion of the
  column raise the same \<^verbatim>\<open>ValueError\<close> whether it stands in the first or in the second
  row, so the error names no row.
\<close>

theorem csv_identifier_counterexample:
  "(\<exists>df'. read_csv_simulation
            (ObjectIds \<lparr>columns = row_keys,
               rows = [\<lparr>Particles = ''a1b22'', x_position = 0 :: real, y_position = 0,
                    z_position = 0, ex_orientation = 0, ey_orientation = 0,
                    ez_orientation = 1, time = 0\<rparr>]\<rparr>) = Inr df'
         \<and> map Particles (rows df') = [1])
   \<and> rev (takeWhile is_digit (rev ''a1b22'')) = ''22''
   \<and> int_of_digits ''22'' = 22
   \<and> read_csv_simulation
        (ObjectIds \<lparr>columns = row_keys,
           rows = [\<lparr>Particles = ''abc'', x_position = 0 :: real, y_position = 0,
                    z_position = 0, ex_orientation = 0, ey_orientation = 0,
                    ez_orientation = 1, time = 0\<rparr>,
                   \<lparr>Particles = ''p7'', x_position = 0, y_position = 0,
                    z_position = 0, ex_orientation = 0, ey_orientation = 0,
                    ez_orientation = 1, time = 0\<rparr>]\<rparr>)
        = Inl (ValueError ''cannot convert float NaN to integer'')
   \<and> read_csv_simulation
        (ObjectIds \<lparr>columns = row_keys,
           rows = [\<lparr>Particles = ''p7'', x_position = 0 :: real, y_position = 0,
                    z_position = 0, ex_orientation = 0, ey_orientation = 0,
                    ez_orientation = 1, time = 0\<rparr>,
                   \<lparr>Particles = ''abc'', x_position = 0, y_position = 0,
                    z_position = 0, ex_orientation = 0, ey_orientation = 0,
                    ez_orientation = 1, time = 0\<rparr>]\<rparr>)
        = Inl (ValueError ''cannot convert float NaN to integer'')"
  by (simp add: read_csv_simulation_def column_def row_keys_def bind_def
      int64_of_object_def py_int_def INT_MAX_STR_DIGITS_def
      str_extract_def is_digit_def int_of_digits_def digit_value_def with_particles_def)

text \<open>
  Claim C7, amended: take any CSV table whose identifier column is text, and say that
  a label converts when it contains a digit and its first (leftmost) maximal run of
  digits has at most 4300 digits and writes a number below \<^verbatim>\<open>2**63\<close>. When every label converts,
  the reader replaces each label by the number written by that run, which lies between
  0 and \<^verbatim>\<open>2**63 - 1\<close>, and changes nothing else. Otherwise the read fails with the
  exception of the first label in row order that does not convert: the \<^verbatim>\<open>ValueError\<close>
  of NaN when the label has no digit, the \<^verbatim>\<open>ValueError\<close> of Python's digit limit
  when the run is longer than 4300 digits, and else \<^verbatim>\<open>OverflowError\<close>; none of them
  names a row. For a label that is a digit-free prefix followed by digits the run is the
  numeric suffix.
\<close>

theorem csv_identifier_first_digit_run:
  assumes "''Particles'' \<in> set (columns df)"
  shows "((\<forall>r \<in> set (rows df). (\<exists>c \<in> set (Particles r). is_digit c)
              \<and> length (first_digit_run (Particles r)) \<le> INT_MAX_STR_DIGITS
              \<and> int_of_digits (first_digit_run (Particles r)) < 2 ^ 63) \<longrightarrow>
          read_csv_simulation (ObjectIds df) =
            Inr \<lparr>columns = columns df,
                 rows = map (\<lambda>r. with_particles r
                                  (int_of_digits (first_digit_run (Particles r))))
                          (rows df)\<rparr>
          \<and> (\<forall>r \<in> set (rows df).
                0 \<le> int_of_digits (first_digit_run (Particles r))))
     \<and> (\<forall>good r rest.
          rows df = good @ r # rest \<and> (\<forall>q \<in> set good. (\<exists>c \<in> set (Particles q). is_digit c)
              \<and> length (first_digit_run (Particles q)) \<le> INT_MAX_STR_DIGITS
              \<and> int_of_digits (first_digit_run (Particles q)) < 2 ^ 63) \<longrightarrow>
            ((\<forall>c \<in> set (Particles r). \<not> is_digit c) \<longrightarrow>
               read_csv_simulation (ObjectIds df) = Inl (ValueError ''cannot convert float NaN to integer''))
          \<and> ((\<exists>c \<in> set (Particles r). is_digit c)
               \<and> INT_MAX_STR_DIGITS < length (first_digit_run (Particles r)) \<longrightarrow>
               read_csv_simulation (ObjectIds df) =
                 Inl (ValueError
                   (''Exceeds the limit (4300 digits) for integer string conversion: value has ''
                    @ str_nat (length (first_digit_run (Particles r)))
                    @ '' digits; use sys.set_int_max_str_digits() to increase the limit'')))
          \<and> ((\<exists>c \<in> set (Particles r). is_digit c)
               \<and> length (first_digit_run (Particles r)) \<le> INT_MAX_STR_DIGITS
               \<and> 2 ^ 63 \<le> int_of_digits (first_digit_run (Particles r)) \<longrightarrow>
               read_csv_simulation (ObjectIds df) = Inl (OverflowError ''Python int too large to convert to C long'')))
     \<and> (\<forall>pre ds. (\<forall>c \<in> set pre. \<not> is_digit c) \<and> ds \<noteq> [] \<and> (\<forall>c \<in> set ds. is_digit c) \<longrightarrow>
          str_extract (pre @ ds) = Some ds \<and> first_digit_run (pre @ ds) = ds)"
proof (intro conjI impI allI)
  have col: "column df ''Particles'' Particles = Inr (map Particles (rows df))"
    using assms by (simp add: column_def)
  have rd: "read_csv_simulation (ObjectIds df) =
      bind (astype_int (map (\<lambda>r. str_extract (Particles r)) (rows df))) (\<lambda>ids.
        Inr \<lparr>columns = columns df, rows = map2 with_particles (rows df) ids\<rparr>)"
    by (simp add: read_csv_simulation_def col bind_def comp_def)
  {
    assume all: "\<forall>r \<in> set (rows df). (\<exists>c \<in> set (Particles r). is_digit c)
              \<and> length (first_digit_run (Particles r)) \<le> INT_MAX_STR_DIGITS
              \<and> int_of_digits (first_digit_run (Particles r)) < 2 ^ 63"
    have "astype_int (map (\<lambda>r. str_extract (Particles r)) (rows df))
        = Inr (map (\<lambda>r. int_of_digits (first_digit_run (Particles r))) (rows df))"
      using all by (intro astype_int_map_ok int64_of_object_ok) simp_all
    then show "read_csv_simulation (ObjectIds df) =
            Inr \<lparr>columns = columns df,
                 rows = map (\<lambda>r. with_particles r
                                  (int_of_digits (first_digit_run (Particles r))))
                          (rows df)\<rparr>"
      by (simp add: rd bind_def map2_same)
    show "\<forall>r \<in> set (rows df). 0 \<le> int_of_digits (first_digit_run (Particles r))"
      by (simp add: int_of_digits_nonneg first_digit_run_digits)
  }
  {
    fix good r rest
    assume h: "rows df = good @ r # rest \<and> (\<forall>q \<in> set good. (\<exists>c \<in> set (Particles q). is_digit c)
              \<and> length (first_digit_run (Particles q)) \<le> INT_MAX_STR_DIGITS
              \<and> int_of_digits (first_digit_run (Particles q)) < 2 ^ 63)"
    have g: "\<exists>i. int64_of_object u = Inr i"
      if "u \<in> set (map (\<lambda>r. str_extract (Particles r)) good)" for u
      using that h by (auto simp: int64_of_object_ok)
    have fail: "read_csv_simulation (ObjectIds df) = Inl e"
      if bad: "int64_of_object (str_extract (Particles r)) = Inl e" for e
    proof -
      have split: "map (\<lambda>r. str_extract (Particles r)) (rows df)
          = map (\<lambda>r. str_extract (Particles r)) good @ str_extract (Particles r)
              # map (\<lambda>r. str_extract (Particles r)) rest"
        using h by simp
      have "astype_int (map (\<lambda>r. str_extract (Particles r)) good @ str_extract (Particles r)
              # map (\<lambda>r. str_extract (Particles r)) rest) = Inl e"
        by (rule astype_int_first_offender) (rule g, assumption, rule bad)
      then have "astype_int (map (\<lambda>r. str_extract (Particles r)) (rows df)) = Inl e"
        by (simp only: split)
      then show ?thesis by (simp add: rd bind_def)
    qed
    {
      assume "\<forall>c \<in> set (Particles r). \<not> is_digit c"
      then have "str_extract (Particles r) = None"
        by (simp add: str_extract_None_iff)
      then show "read_csv_simulation (ObjectIds df) = Inl (ValueError ''cannot convert float NaN to integer'')"
        by (intro fail) (simp add: int64_of_object_def)
    }
    {
      assume "(\<exists>c \<in> set (Particles r). is_digit c)
               \<and> INT_MAX_STR_DIGITS < length (first_digit_run (Particles r))"
      then show "read_csv_simulation (ObjectIds df) =
                 Inl (ValueError
                   (''Exceeds the limit (4300 digits) for integer string conversion: value has ''
                    @ str_nat (length (first_digit_run (Particles r)))
                    @ '' digits; use sys.set_int_max_str_digits() to increase the limit''))"
        by (intro fail) (simp add: str_extract_Some int64_of_object_def py_int_def bind_def)
    }
    {
      assume "(\<exists>c \<in> set (Particles r). is_digit c)
               \<and> length (first_digit_run (Particles r)) \<le> INT_MAX_STR_DIGITS
               \<and> 2 ^ 63 \<le> int_of_digits (first_digit_run (Particles r))"
      then show "read_csv_simulation (ObjectIds df) = Inl (OverflowError ''Python int too large to convert to C long'')"
        by (intro fail) (simp add: str_extract_Some int64_of_object_def py_int_def bind_def)
    }
  }
  {
    fix pre ds
    assume a: "(\<forall>c \<in> set pre. \<not> is_digit c) \<and> ds \<noteq> [] \<and> (\<forall>c \<in> set ds. is_digit c)"
    then show r: "first_digit_run (pre @ ds) = ds"
      by (intro first_digit_run_suffix) simp_all
    from a have "\<exists>c \<in> set (pre @ ds). is_digit c"
      by (cases ds) auto
    from str_extract_Some [OF this] r
    show "str_extract (pre @ ds) = Some ds"
      by simp
  }
qed

theorem csv_identifier_first_digit_run_witness:
  "read_csv_simulation
     (ObjectIds \<lparr>columns = row_keys,
        rows = [\<lparr>Particles = ''particle_12'', x_position = 3 :: real, y_position = 4,
                 z_position = 5, ex_orientation = 0, ey_orientation = 0,
                 ez_orientation = 1, time = 7\<rparr>]\<rparr>)
     = Inr \<lparr>columns = row_keys,
        rows = [\<lparr>Particles = 12, x_position = 3, y_position = 4,
                 z_position = 5, ex_orientation = 0, ey_orientation = 0,
                 ez_orientation = 1, time = 7\<rparr>]\<rparr>
   \<and> read_csv_simulation
     (ObjectIds \<lparr>columns = row_keys,
        rows = [\<lparr>Particles = ''particle'', x_position = 3 :: real, y_position = 4,
                 z_position = 5, ex_orientation = 0, ey_orientation = 0,
                 ez_orientation = 1, time = 7\<rparr>]\<rparr>)
     = Inl (ValueError ''cannot convert float NaN to integer'')
   \<and> read_csv_simulation
     (ObjectIds \<lparr>columns = row_keys,
        rows = [\<lparr>Particles = ''p7'', x_position = 3 :: real, y_position = 4,
                 z_position = 5, ex_orientation = 0, ey_orientation = 0,
                 ez_orientation = 1, time = 7\<rparr>,
                \<lparr>Particles = ''p9223372036854775808'', x_position = 3, y_position = 4,
                 z_position = 5, ex_orientation = 0, ey_orientation = 0,
                 ez_orientation = 1, time = 8\<rparr>,
                \<lparr>Particles = ''q'', x_position = 3, y_position = 4,
                 z_position = 5, ex_orientation = 0, ey_orientation = 0,
                 ez_orientation = 1, time = 9\<rparr>]\<rparr>)
     = Inl (OverflowError ''Python int too large to convert to C long'')
   \<and> read_csv_simulation
     (ObjectIds \<lparr>columns = row_keys,
        rows = [\<lparr>Particles = CHR ''p'' # replicate 4301 (CHR ''1''), x_position = 3 :: real, y_position = 4,
                 z_position = 5, ex_orientation = 0, ey_orientation = 0,
                 ez_orientation = 1, time = 7\<rparr>]\<rparr>)
     = Inl (ValueError
         (''Exceeds the limit (4300 digits) for integer string conversion: value has ''
          @ ''4301''
          @ '' digits; use sys.set_int_max_str_digits() to increase the limit''))
   \<and> str_extract (''particle_'' @ ''12'') = Some ''12''"
proof -
  let ?good = "\<lparr>columns = row_keys,
        rows = [\<lparr>Particles = ''particle_12'', x_position = 3 :: real, y_position = 4,
                 z_position = 5, ex_orientation = 0, ey_orientation = 0,
                 ez_orientation = 1, time = 7\<rparr>]\<rparr>"
  let ?bad = "\<lparr>columns = row_keys,
        rows = [\<lparr>Particles = ''particle'', x_position = 3 :: real, y_position = 4,
                 z_position = 5, ex_orientation = 0, ey_orientation = 0,
                 ez_orientation = 1, time = 7\<rparr>]\<rparr>"
  let ?p7 = "\<lparr>Particles = ''p7'', x_position = 3 :: real, y_position = 4,
       z_position = 5, ex_orientation = 0, ey_orientation = 0,
       ez_orientation = 1, time = 7\<rparr>"
  let ?p2 = "\<lparr>Particles = ''p9223372036854775808'', x_position = 3 :: real, y_position = 4,
       z_position = 5, ex_orientation = 0, ey_orientation = 0,
       ez_orientation = 1, time = 8\<rparr>"
  let ?q = "\<lparr>Particles = ''q'', x_position = 3 :: real, y_position = 4,
       z_position = 5, ex_orientation = 0, ey_orientation = 0,
       ez_orientation = 1, time = 9\<rparr>"
  let ?big = "\<lparr>columns = row_keys, rows = [?p7, ?p2, ?q]\<rparr>"
  let ?l = "\<lparr>Particles = CHR ''p'' # replicate 4301 (CHR ''1''), x_position = 3 :: real, y_position = 4,
       z_position = 5, ex_orientation = 0, ey_orientation = 0,
       ez_orientation = 1, time = 7\<rparr>"
  let ?lng = "\<lparr>columns = row_keys, rows = [?l]\<rparr>"
  note t = csv_identifier_first_digit_run
  have cg: "''Particles'' \<in> set (columns ?good)" and cb: "''Particles'' \<in> set (columns ?bad)"
    and cbig: "''Particles'' \<in> set (columns ?big)" and cl: "''Particles'' \<in> set (columns ?lng)"
    by (simp_all add: row_keys_def)
  have r12: "first_digit_run ''particle_12'' = ''12''"
    and r7: "first_digit_run ''p7'' = ''7''"
    and r2: "first_digit_run ''p9223372036854775808'' = ''9223372036854775808''"
    by (simp_all add: first_digit_run_def is_digit_def)
  have rl: "first_digit_run (CHR ''p'' # replicate 4301 (CHR ''1'')) = replicate 4301 (CHR ''1'')"
    using first_digit_run_suffix [of "''p''" "replicate 4301 (CHR ''1'')"]
    by (simp add: is_digit_def)
  have s4301: "str_nat 4301 = ''4301''"
    by (simp add: str_nat.simps [of 4301] str_nat.simps [of 430] str_nat.simps [of 43]
        str_nat.simps [of 4] digit_char_def)
  have hg: "\<forall>r \<in> set (rows ?good). (\<exists>c \<in> set (Particles r). is_digit c)
      \<and> length (first_digit_run (Particles r)) \<le> INT_MAX_STR_DIGITS
      \<and> int_of_digits (first_digit_run (Particles r)) < 2 ^ 63"
    by (simp add: r12 INT_MAX_STR_DIGITS_def int_of_digits_def digit_value_def)
      (simp add: is_digit_def)
  have hb: "rows ?bad = [] @ \<lparr>Particles = ''particle'', x_position = 3 :: real, y_position = 4,
       z_position = 5, ex_orientation = 0, ey_orientation = 0,
       ez_orientation = 1, time = 7\<rparr> # []
      \<and> (\<forall>q \<in> set []. (\<exists>c \<in> set (Particles q). is_digit c)
      \<and> length (first_digit_run (Particles q)) \<le> INT_MAX_STR_DIGITS
      \<and> int_of_digits (first_digit_run (Particles q)) < 2 ^ 63)"
    by simp
  have nb: "\<forall>c \<in> set (Particles \<lparr>Particles = ''particle'', x_position = 3 :: real, y_position = 4,
       z_position = 5, ex_orientation = 0, ey_orientation = 0,
       ez_orientation = 1, time = 7\<rparr>). \<not> is_digit c"
    by (simp add: is_digit_def)
  have hbig: "rows ?big = [?p7] @ ?p2 # [?q]
      \<and> (\<forall>q \<in> set [?p7]. (\<exists>c \<in> set (Particles q). is_digit c)
      \<and> length (first_digit_run (Particles q)) \<le> INT_MAX_STR_DIGITS
      \<and> int_of_digits (first_digit_run (Particles q)) < 2 ^ 63)"
    by (simp add: r7 INT_MAX_STR_DIGITS_def int_of_digits_def digit_value_def)
      (simp add: is_digit_def)
  have nbig: "(\<exists>c \<in> set (Particles ?p2). is_digit c)
      \<and> length (first_digit_run (Particles ?p2)) \<le> INT_MAX_STR_DIGITS
      \<and> 2 ^ 63 \<le> int_of_digits (first_digit_run (Particles ?p2))"
    by (simp add: r2 INT_MAX_STR_DIGITS_def int_of_digits_def digit_value_def)
      (simp add: is_digit_def)
  have hl: "rows ?lng = [] @ ?l # []
      \<and> (\<forall>q \<in> set []. (\<exists>c \<in> set (Particles q). is_digit c)
      \<and> length (first_digit_run (Particles q)) \<le> INT_MAX_STR_DIGITS
      \<and> int_of_digits (first_digit_run (Particles q)) < 2 ^ 63)"
    by simp
  have nl: "(\<exists>c \<in> set (Particles ?l). is_digit c)
      \<and> INT_MAX_STR_DIGITS < length (first_digit_run (Particles ?l))"
    by (simp add: rl INT_MAX_STR_DIGITS_def) (simp add: is_digit_def)
  have hs: "(\<forall>c \<in> set ''particle_''. \<not> is_digit c) \<and> ''12'' \<noteq> []
      \<and> (\<forall>c \<in> set ''12''. is_digit c)"
    by (simp add: is_digit_def)
  have a: "read_csv_simulation (ObjectIds ?good) =
      Inr \<lparr>columns = row_keys,
        rows = [\<lparr>Particles = 12, x_position = 3, y_position = 4,
                 z_position = 5, ex_orientation = 0, ey_orientation = 0,
                 ez_orientation = 1, time = 7\<rparr>]\<rparr>"
    using t [OF cg, THEN conjunct1, THEN mp, OF hg, THEN conjunct1]
    by (simp add: with_particles_def r12 int_of_digits_def digit_value_def)
  have b: "read_csv_simulation (ObjectIds ?bad) = Inl (ValueError ''cannot convert float NaN to integer'')"
    using t [OF cb, THEN conjunct2, THEN conjunct1, THEN spec, THEN spec, THEN spec,
        THEN mp, OF hb, THEN conjunct1, THEN mp, OF nb] .
  have c: "read_csv_simulation (ObjectIds ?big) = Inl (OverflowError ''Python int too large to convert to C long'')"
    using t [OF cbig, THEN conjunct2, THEN conjunct1, THEN spec, THEN spec, THEN spec,
        THEN mp, OF hbig, THEN conjunct2, THEN conjunct2, THEN mp, OF nbig] .
  have d: "read_csv_simulation (ObjectIds ?lng) = Inl (ValueError
         (''Exceeds the limit (4300 digits) for integer string conversion: value has ''
          @ ''4301''
          @ '' digits; use sys.set_int_max_str_digits() to increase the limit''))"
    using t [OF cl, THEN conjunct2, THEN conjunct1, THEN spec, THEN spec, THEN spec,
        THEN mp, OF hl, THEN conjunct2, THEN conjunct1, THEN mp, OF nl]
    by (simp add: rl s4301)
  have e: "str_extract (''particle_'' @ ''12'') = Some ''12''"
    using t [OF cg, THEN conjunct2, THEN conjunct2, THEN spec, THEN spec, THEN mp, OF hs,
        THEN conjunct1] .
  show ?thesis
    using a b c d e by blast
qed

end
